theory Spec2Isabelle
  imports Main
begin

section \<open>The carousel component (class PLSCarousel)\<close>

text \<open>
  A shallow embedding of the carousel class. The object's fields, the closure variables
  of \<open>bindSwipeEvents\<close> and the part of the browser the code talks to (dispatched custom
  events, pending \<open>setTimeout\<close> and \<open>requestAnimationFrame\<close> callbacks) are collected in one
  record that every method takes and returns. A method that can raise returns an
  \<open>outcome\<close>: JavaScript keeps the mutations made before the exception, so a thrown
  outcome carries the state reached at the throw.

  Not modelled: \<open>destroy\<close>, the \<open>DOMContentLoaded\<close> auto-initialisation, the inner HTML and
  ARIA attributes of the generated buttons other than the play/pause icon, the
  \<open>carousel-slide\<close> class and \<open>data-slide-index\<close> attribute of the panels, and the calls of
  \<open>preventDefault\<close>. Pointer coordinates are integers.
\<close>

subsection \<open>Data\<close>

datatype js_error = TypeError

record carousel_options =
  autoplay :: bool
  autoplayDelay :: int
  loop :: bool
  showDots :: bool
  showArrows :: bool
  swipe :: bool
  fadeEffect :: bool
  pauseOnHover :: bool

text \<open>The fallback values of the constructor (lines 10 to 17).\<close>

definition default_options :: carousel_options where
  "default_options =
     \<lparr>autoplay = True, autoplayDelay = 5000, loop = True, showDots = True,
      showArrows = True, swipe = True, fadeEffect = False, pauseOnHover = True\<rparr>"

text \<open>
  A panel: whether it carries the class \<open>active\<close>, and the two inline styles the fade
  strategy writes (the empty string is an unset style).
\<close>

record slide =
  slide_active :: bool
  slide_opacity :: string
  slide_transition :: string

text \<open>
  The element \<open>carouselInner\<close>: its inline transition, and the percentage of its
  \<open>translateX\<close> transform (\<open>None\<close> while no transform has been written).
\<close>

record track =
  track_transition :: string
  track_transform :: "int option"

datatype icon = Pause_icon | Play_icon

text \<open>The two custom events: \<open>slideChange\<close> with \<open>from\<close> and \<open>to\<close>, \<open>slideChanged\<close> with \<open>currentSlide\<close>.\<close>

datatype custom_event = SlideChange int int | SlideChanged int

text \<open>
  The function passed to \<open>setTimeout\<close>: by \<open>slideToSlide\<close> (capturing \<open>index\<close>) or by
  \<open>fadeToSlide\<close> (capturing the two panels, as positions in \<open>slides\<close>, and \<open>index\<close>).
\<close>

datatype callback = SlideCleanup int | FadeCleanup nat nat int

text \<open>The variables declared at the top of \<open>bindSwipeEvents\<close>, shared by its handlers.\<close>

record swipe_vars =
  startX :: int
  startY :: int
  endX :: int
  endY :: int
  isDragging :: bool
  isMouseDown :: bool

record carousel =
  element :: bool  \<comment> \<open>\<open>this.carousel\<close> is an element (not null)\<close>
  options :: carousel_options
  currentSlide :: int
  slides :: "slide list"
  isPlaying :: bool
  autoplayTimer :: "int option"  \<comment> \<open>the handle of the armed interval, as its period; \<open>None\<close> is null\<close>
  isTransitioning :: bool
  carouselInner :: "track option"
  prevArrow :: bool
  nextArrow :: bool
  dots :: "bool list option"  \<comment> \<open>the class \<open>active\<close> of every dot, when dots were created\<close>
  playPauseBtn :: "icon option"
  classList :: "string list"
  cursor :: string
  vars :: swipe_vars
  listening :: bool  \<comment> \<open>\<open>bindEvents\<close> has registered the listeners\<close>
  events :: "custom_event list"  \<comment> \<open>the custom events dispatched so far, oldest first\<close>
  timeouts :: "(nat \<times> callback) list"  \<comment> \<open>pending \<open>setTimeout\<close> calls: delay in ms and function\<close>
  frames :: "(nat \<times> nat) list"  \<comment> \<open>pending \<open>requestAnimationFrame\<close> callbacks of \<open>fadeToSlide\<close>\<close>

datatype outcome = Returned carousel | Threw js_error carousel

definition andThen :: "outcome \<Rightarrow> (carousel \<Rightarrow> outcome) \<Rightarrow> outcome" where
  "andThen r f = (case r of Returned c \<Rightarrow> f c | Threw e c \<Rightarrow> Threw e c)"

fun state_of :: "outcome \<Rightarrow> carousel" where
  "state_of (Returned c) = c"
| "state_of (Threw e c) = c"

fun threw :: "outcome \<Rightarrow> bool" where
  "threw (Returned c) = False"
| "threw (Threw e c) = True"

text \<open>Reading a JavaScript array at an integer: \<open>undefined\<close> outside the array.\<close>

definition nth_opt :: "'a list \<Rightarrow> int \<Rightarrow> 'a option" where
  "nth_opt xs i = (if 0 \<le> i \<and> i < int (length xs) then Some (xs ! nat i) else None)"

definition updSlide :: "nat \<Rightarrow> (slide \<Rightarrow> slide) \<Rightarrow> carousel \<Rightarrow> carousel" where
  "updSlide i f c = c\<lparr>slides := (slides c)[i := f (slides c ! i)]\<rparr>"

definition fade_css :: string where
  "fade_css = ''opacity 0.5s ease-in-out''"

definition slide_css :: string where
  "slide_css = ''transform 0.5s ease-in-out''"

subsection \<open>Construction\<close>

text \<open>
  The fields set by the constructor before it calls \<open>init\<close> (lines 8 to 25); the other
  fields are still undefined, the closure variables do not exist yet.
\<close>

definition fresh :: "bool \<Rightarrow> carousel_options \<Rightarrow> carousel" where
  "fresh el opts =
     \<lparr>element = el, options = opts, currentSlide = 0, slides = [], isPlaying = autoplay opts,
      autoplayTimer = None, isTransitioning = False, carouselInner = None,
      prevArrow = False, nextArrow = False, dots = None, playPauseBtn = None,
      classList = [], cursor = [],
      vars = \<lparr>startX = 0, startY = 0, endX = 0, endY = 0, isDragging = False,
              isMouseDown = False\<rparr>,
      listening = False, events = [], timeouts = [], frames = []\<rparr>"

text \<open>\<open>setupCarousel\<close>; \<open>children\<close> are the panels found under the element.\<close>

definition setupCarousel :: "carousel \<Rightarrow> slide list \<Rightarrow> carousel" where
  "setupCarousel c children =
     (let c1 = c\<lparr>classList := classList c @ [''pls-carousel''], slides := children\<rparr>
      in if length (slides c1) = 0 then c1
         else
           let c2 = c1\<lparr>carouselInner := Some \<lparr>track_transition = [], track_transform = None\<rparr>\<rparr>
           in if fadeEffect (options c2) then c2\<lparr>classList := classList c2 @ [''fade-effect'']\<rparr>
              else c2)"

definition createArrows :: "carousel \<Rightarrow> carousel" where
  "createArrows c = c\<lparr>prevArrow := True, nextArrow := True\<rparr>"

definition createDots :: "carousel \<Rightarrow> carousel" where
  "createDots c = c\<lparr>dots := Some (map (\<lambda>_. False) (slides c))\<rparr>"

definition createPlayPauseButton :: "carousel \<Rightarrow> carousel" where
  "createPlayPauseButton c =
     (if \<not> autoplay (options c) then c else c\<lparr>playPauseBtn := Some Pause_icon\<rparr>)"

definition createControls :: "carousel \<Rightarrow> carousel" where
  "createControls c =
     (if length (slides c) \<le> 1 then c
      else
        let c1 = (if showArrows (options c) then createArrows c else c);
            c2 = (if showDots (options c1) then createDots c1 else c1)
        in createPlayPauseButton c2)"

text \<open>
  \<open>bindEvents\<close> registers the listeners. Which of them exist depends on the options and
  on the generated controls, none of which change afterwards; the handlers below test
  these conditions themselves.
\<close>

definition bindEvents :: "carousel \<Rightarrow> carousel" where
  "bindEvents c = c\<lparr>listening := True\<rparr>"

subsection \<open>Autoplay\<close>

definition pauseAutoplay :: "carousel \<Rightarrow> carousel" where
  "pauseAutoplay c =
     (let c1 = (case autoplayTimer c of Some t \<Rightarrow> c\<lparr>autoplayTimer := None\<rparr> | None \<Rightarrow> c)
      in case playPauseBtn c1 of
           Some b \<Rightarrow> c1\<lparr>playPauseBtn := Some Play_icon\<rparr>
         | None \<Rightarrow> c1)"

definition startAutoplay :: "carousel \<Rightarrow> carousel" where
  "startAutoplay c =
     (if \<not> autoplay (options c) \<or> length (slides c) \<le> 1 then c
      else
        let c1 = pauseAutoplay c;
            c2 = c1\<lparr>autoplayTimer := Some (autoplayDelay (options c1)), isPlaying := True\<rparr>
        in case playPauseBtn c2 of
             Some b \<Rightarrow> c2\<lparr>playPauseBtn := Some Pause_icon\<rparr>
           | None \<Rightarrow> c2)"

definition toggleAutoplay :: "carousel \<Rightarrow> carousel" where
  "toggleAutoplay c =
     (if isPlaying c then pauseAutoplay (c\<lparr>isPlaying := False\<rparr>)
      else startAutoplay (c\<lparr>isPlaying := True\<rparr>))"

subsection \<open>Navigation and the two transition strategies\<close>

definition dispatchEvent :: "carousel \<Rightarrow> custom_event \<Rightarrow> outcome" where
  "dispatchEvent c ev =
     (if element c then Returned (c\<lparr>events := events c @ [ev]\<rparr>) else Threw TypeError c)"

text \<open>
  The statements that open both \<open>setSlide\<close> (lines 346 to 355) and \<open>updateSlideState\<close>
  (lines 414 to 423): clear the class \<open>active\<close> everywhere, set it on \<open>slides[index]\<close> and,
  when there are dots, on \<open>dots[index]\<close>. Reading \<open>classList\<close> of \<open>undefined\<close> raises.
\<close>

definition markActive :: "carousel \<Rightarrow> int \<Rightarrow> outcome" where
  "markActive c index =
     (let c1 = c\<lparr>slides := map (\<lambda>s. s\<lparr>slide_active := False\<rparr>) (slides c)\<rparr>
      in case nth_opt (slides c1) index of
           None \<Rightarrow> Threw TypeError c1
         | Some s \<Rightarrow>
             (let c2 = updSlide (nat index) (\<lambda>s. s\<lparr>slide_active := True\<rparr>) c1
              in case dots c2 of
                   None \<Rightarrow> Returned c2
                 | Some ds \<Rightarrow>
                     (let c3 = c2\<lparr>dots := Some (map (\<lambda>_. False) ds)\<rparr>
                      in case nth_opt ds index of
                           None \<Rightarrow> Threw TypeError c3
                         | Some d \<Rightarrow>
                             Returned
                               (c3\<lparr>dots := Some ((map (\<lambda>_. False) ds)[nat index := True])\<rparr>))))"

definition setSlide :: "carousel \<Rightarrow> int \<Rightarrow> outcome" where
  "setSlide c index =
     andThen (markActive c index) (\<lambda>c1.
       let c2 = c1\<lparr>currentSlide := index\<rparr>
       in if \<not> fadeEffect (options c2) then
            (case carouselInner c2 of
               None \<Rightarrow> Threw TypeError c2
             | Some t \<Rightarrow>
                 Returned (c2\<lparr>carouselInner := Some (t\<lparr>track_transform := Some (- index * 100)\<rparr>),
                              isTransitioning := False\<rparr>))
          else Returned (c2\<lparr>isTransitioning := False\<rparr>))"

definition updateSlideState :: "carousel \<Rightarrow> int \<Rightarrow> outcome" where
  "updateSlideState c index =
     andThen (markActive c index) (\<lambda>c1.
       dispatchEvent (c1\<lparr>currentSlide := index, isTransitioning := False\<rparr>) (SlideChanged index))"

definition fadeToSlide :: "carousel \<Rightarrow> int \<Rightarrow> outcome" where
  "fadeToSlide c index =
     (case nth_opt (slides c) index of
        None \<Rightarrow> Threw TypeError c
      | Some s \<Rightarrow>
          (let nxt = nat index;
               c1 = updSlide nxt (\<lambda>s. s\<lparr>slide_opacity := ''0'', slide_active := True\<rparr>) c
           in case nth_opt (slides c1) (currentSlide c1) of
                None \<Rightarrow> Threw TypeError c1
              | Some s' \<Rightarrow>
                  (let cur = nat (currentSlide c1);
                       c2 = updSlide cur (\<lambda>s. s\<lparr>slide_transition := fade_css\<rparr>) c1;
                       c3 = updSlide nxt (\<lambda>s. s\<lparr>slide_transition := fade_css\<rparr>) c2
                   in Returned
                        (c3\<lparr>frames := frames c3 @ [(cur, nxt)],
                            timeouts := timeouts c3 @ [(500, FadeCleanup cur nxt index)]\<rparr>))))"

definition slideToSlide :: "carousel \<Rightarrow> int \<Rightarrow> outcome" where
  "slideToSlide c index =
     (case carouselInner c of
        None \<Rightarrow> Threw TypeError c
      | Some t \<Rightarrow>
          Returned (c\<lparr>carouselInner :=
                        Some (t\<lparr>track_transition := slide_css,
                                track_transform := Some (- index * 100)\<rparr>),
                      timeouts := timeouts c @ [(500, SlideCleanup index)]\<rparr>))"

definition goToSlide :: "carousel \<Rightarrow> int \<Rightarrow> bool \<Rightarrow> outcome" where
  "goToSlide c index animate =
     (if isTransitioning c \<or> index = currentSlide c then Returned c
      else
        let slideCount = int (length (slides c));
            index' =
              (if index \<ge> slideCount then (if loop (options c) then 0 else slideCount - 1)
               else if index < 0 then (if loop (options c) then slideCount - 1 else 0)
               else index)
        in if \<not> animate then setSlide c index'
           else
             andThen
               (dispatchEvent (c\<lparr>isTransitioning := True\<rparr>) (SlideChange (currentSlide c) index'))
               (\<lambda>c1. if fadeEffect (options c1) then fadeToSlide c1 index'
                      else slideToSlide c1 index'))"

definition nextSlide :: "carousel \<Rightarrow> outcome" where
  "nextSlide c = (let nextIndex = currentSlide c + 1 in goToSlide c nextIndex True)"

definition prevSlide :: "carousel \<Rightarrow> outcome" where
  "prevSlide c = (let prevIndex = currentSlide c - 1 in goToSlide c prevIndex True)"

text \<open>\<open>init\<close>, and the constructor: \<open>el\<close> is the element's list of panels, or \<open>None\<close> for null.\<close>

definition init :: "carousel \<Rightarrow> slide list \<Rightarrow> outcome" where
  "init c children =
     (if \<not> element c then Returned c
      else
        let c1 = setupCarousel c children;
            c2 = createControls c1;
            c3 = bindEvents c2;
            c4 = (if autoplay (options c3) then startAutoplay c3 else c3)
        in goToSlide c4 0 False)"

definition PLSCarousel :: "slide list option \<Rightarrow> carousel_options \<Rightarrow> outcome" where
  "PLSCarousel el opts =
     (case el of
        None \<Rightarrow> init (fresh False opts) []
      | Some children \<Rightarrow> init (fresh True opts) children)"

subsection \<open>Scheduled callbacks\<close>

text \<open>The body of the function handed to \<open>setTimeout\<close> (lines 388 to 396 and 406 to 409).\<close>

fun runCallback :: "carousel \<Rightarrow> callback \<Rightarrow> outcome" where
  "runCallback c (SlideCleanup index) =
     (case carouselInner c of
        None \<Rightarrow> Threw TypeError c
      | Some t \<Rightarrow>
          updateSlideState (c\<lparr>carouselInner := Some (t\<lparr>track_transition := []\<rparr>)\<rparr>) index)"
| "runCallback c (FadeCleanup cur nxt index) =
     (let c1 = updSlide cur (\<lambda>s. s\<lparr>slide_active := False, slide_opacity := [],
                                     slide_transition := []\<rparr>) c;
          c2 = updSlide nxt (\<lambda>s. s\<lparr>slide_opacity := [], slide_transition := []\<rparr>) c1
      in updateSlideState c2 index)"

text \<open>
  The oldest pending timeout expires. Every timeout of the component has the same
  delay, so they expire in the order in which they were scheduled.
\<close>

definition timeoutFires :: "carousel \<Rightarrow> outcome" where
  "timeoutFires c =
     (case timeouts c of
        [] \<Rightarrow> Returned c
      | (delay, cb) # rest \<Rightarrow> runCallback (c\<lparr>timeouts := rest\<rparr>) cb)"

text \<open>The oldest pending animation-frame callback runs (lines 382 to 385).\<close>

definition frameFires :: "carousel \<Rightarrow> carousel" where
  "frameFires c =
     (case frames c of
        [] \<Rightarrow> c
      | (cur, nxt) # rest \<Rightarrow>
          updSlide nxt (\<lambda>s. s\<lparr>slide_opacity := ''1''\<rparr>)
            (updSlide cur (\<lambda>s. s\<lparr>slide_opacity := ''0''\<rparr>) (c\<lparr>frames := rest\<rparr>)))"

text \<open>The function handed to \<open>setInterval\<close> runs, if an interval is armed.\<close>

definition intervalFires :: "carousel \<Rightarrow> outcome" where
  "intervalFires c = (case autoplayTimer c of None \<Rightarrow> Returned c | Some t \<Rightarrow> nextSlide c)"

subsection \<open>Listeners\<close>

text \<open>The bodies of the listeners that \<open>bindSwipeEvents\<close> registers (lines 216 to 306).\<close>

definition handleTouchStart :: "carousel \<Rightarrow> int \<Rightarrow> int \<Rightarrow> carousel" where
  "handleTouchStart c x y =
     pauseAutoplay (c\<lparr>vars := (vars c)\<lparr>startX := x, startY := y, isDragging := True\<rparr>\<rparr>)"

definition handleTouchMove :: "carousel \<Rightarrow> int \<Rightarrow> int \<Rightarrow> carousel" where
  "handleTouchMove c x y =
     (if \<not> isDragging (vars c) then c else c\<lparr>vars := (vars c)\<lparr>endX := x, endY := y\<rparr>\<rparr>)"

definition handleTouchEnd :: "carousel \<Rightarrow> outcome" where
  "handleTouchEnd c =
     (if \<not> isDragging (vars c) then Returned c
      else
        let c1 = c\<lparr>vars := (vars c)\<lparr>isDragging := False\<rparr>\<rparr>;
            deltaX = endX (vars c1) - startX (vars c1);
            deltaY = endY (vars c1) - startY (vars c1);
            minSwipeDistance = 50
        in andThen
             (if \<bar>deltaX\<bar> > \<bar>deltaY\<bar> \<and> \<bar>deltaX\<bar> > minSwipeDistance then
                (if deltaX > 0 then prevSlide c1 else nextSlide c1)
              else Returned c1)
             (\<lambda>c2. Returned (if isPlaying c2 then startAutoplay c2 else c2)))"

definition mousedown :: "carousel \<Rightarrow> int \<Rightarrow> int \<Rightarrow> carousel" where
  "mousedown c x y =
     c\<lparr>vars := (vars c)\<lparr>startX := x, startY := y, isMouseDown := True\<rparr>, cursor := ''grabbing''\<rparr>"

definition mousemove :: "carousel \<Rightarrow> int \<Rightarrow> int \<Rightarrow> carousel" where
  "mousemove c x y =
     (if \<not> isMouseDown (vars c) then c else c\<lparr>vars := (vars c)\<lparr>endX := x, endY := y\<rparr>\<rparr>)"

definition mouseup :: "carousel \<Rightarrow> outcome" where
  "mouseup c =
     (if \<not> isMouseDown (vars c) then Returned c
      else
        let c1 = c\<lparr>vars := (vars c)\<lparr>isMouseDown := False\<rparr>, cursor := []\<rparr>;
            deltaX = endX (vars c1) - startX (vars c1);
            minSwipeDistance = 50
        in if \<bar>deltaX\<bar> > minSwipeDistance then
             (if deltaX > 0 then prevSlide c1 else nextSlide c1)
           else Returned c1)"

definition swipe_mouseleave :: "carousel \<Rightarrow> carousel" where
  "swipe_mouseleave c = c\<lparr>vars := (vars c)\<lparr>isMouseDown := False\<rparr>, cursor := []\<rparr>"

text \<open>The bodies of the listeners that \<open>bindEvents\<close> registers itself (lines 136 to 206).\<close>

definition dot_click :: "carousel \<Rightarrow> nat \<Rightarrow> outcome" where
  "dot_click c i = (let slideIndex = int i in goToSlide c slideIndex True)"

definition keydown :: "carousel \<Rightarrow> string \<Rightarrow> outcome" where
  "keydown c key =
     (if key = ''ArrowLeft'' then prevSlide c
      else if key = ''ArrowRight'' then nextSlide c
      else if key = '' '' then Returned (toggleAutoplay c)
      else Returned c)"

definition hover_mouseenter :: "carousel \<Rightarrow> carousel" where
  "hover_mouseenter c = pauseAutoplay c"

definition hover_mouseleave :: "carousel \<Rightarrow> carousel" where
  "hover_mouseleave c = (if isPlaying c then startAutoplay c else c)"

definition visibilitychange :: "carousel \<Rightarrow> bool \<Rightarrow> carousel" where
  "visibilitychange c hidden =
     (if hidden then pauseAutoplay c else if isPlaying c then startAutoplay c else c)"

subsection \<open>What can happen to a carousel\<close>

text \<open>
  Calls of the public methods by the page, the browser events the component listens
  to, and the expiry of its timers.
\<close>

datatype stimulus =
    Call_next | Call_prev | Call_goTo int bool
  | Call_start | Call_pause | Call_toggle
  | Click_prev | Click_next | Click_dot nat | Click_playPause
  | Key string
  | MouseEnter | MouseLeave
  | TouchStart int int | TouchMove int int | TouchEnd
  | MouseDown int int | MouseMove int int | MouseUp
  | Visibility bool
  | Interval | Timeout | Frame

text \<open>
  A browser event reaches the listeners registered for it, in registration order. The
  conditions are those under which \<open>bindEvents\<close> registers the listener.
\<close>

fun deliver :: "carousel \<Rightarrow> stimulus \<Rightarrow> outcome" where
  "deliver c Call_next = nextSlide c"
| "deliver c Call_prev = prevSlide c"
| "deliver c (Call_goTo index animate) = goToSlide c index animate"
| "deliver c Call_start = Returned (startAutoplay c)"
| "deliver c Call_pause = Returned (pauseAutoplay c)"
| "deliver c Call_toggle = Returned (toggleAutoplay c)"
| "deliver c Click_prev = (if listening c \<and> prevArrow c then prevSlide c else Returned c)"
| "deliver c Click_next = (if listening c \<and> nextArrow c then nextSlide c else Returned c)"
| "deliver c (Click_dot i) =
     (case dots c of
        None \<Rightarrow> Returned c
      | Some ds \<Rightarrow> if listening c \<and> i < length ds then dot_click c i else Returned c)"
| "deliver c Click_playPause =
     (case playPauseBtn c of
        None \<Rightarrow> Returned c
      | Some b \<Rightarrow> if listening c then Returned (toggleAutoplay c) else Returned c)"
| "deliver c (Key key) = (if listening c then keydown c key else Returned c)"
| "deliver c MouseEnter =
     (if listening c \<and> pauseOnHover (options c) then Returned (hover_mouseenter c)
      else Returned c)"
| "deliver c MouseLeave =
     (let c1 = (if listening c \<and> pauseOnHover (options c) then hover_mouseleave c else c)
      in Returned (if listening c1 \<and> swipe (options c1) then swipe_mouseleave c1 else c1))"
| "deliver c (TouchStart x y) =
     (if listening c \<and> swipe (options c) then Returned (handleTouchStart c x y) else Returned c)"
| "deliver c (TouchMove x y) =
     (if listening c \<and> swipe (options c) then Returned (handleTouchMove c x y) else Returned c)"
| "deliver c TouchEnd =
     (if listening c \<and> swipe (options c) then handleTouchEnd c else Returned c)"
| "deliver c (MouseDown x y) =
     (if listening c \<and> swipe (options c) then Returned (mousedown c x y) else Returned c)"
| "deliver c (MouseMove x y) =
     (if listening c \<and> swipe (options c) then Returned (mousemove c x y) else Returned c)"
| "deliver c MouseUp = (if listening c \<and> swipe (options c) then mouseup c else Returned c)"
| "deliver c (Visibility hidden) =
     (if listening c then Returned (visibilitychange c hidden) else Returned c)"
| "deliver c Interval = intervalFires c"
| "deliver c Timeout = timeoutFires c"
| "deliver c Frame = Returned (frameFires c)"

text \<open>
  A history of stimuli, each delivered to the state the previous one left. An
  exception ends the handler that raised it, not the component: the next stimulus
  meets the state reached at the throw. \<open>trace\<close> keeps every outcome, \<open>run\<close> the last state.
\<close>

fun trace :: "carousel \<Rightarrow> stimulus list \<Rightarrow> outcome list" where
  "trace c [] = []"
| "trace c (s # ss) = deliver c s # trace (state_of (deliver c s)) ss"

fun run :: "carousel \<Rightarrow> stimulus list \<Rightarrow> carousel" where
  "run c [] = c"
| "run c (s # ss) = run (state_of (deliver c s)) ss"

subsection \<open>Consistent states\<close>

text \<open>
  What holds of a carousel built over an element with at least one panel, whatever
  happens to it afterwards: the element and the track exist, the index is in range,
  the dots match the panels, a pending completion callback exists exactly while a
  transition is running and refers to existing panels, an interval is armed only with
  autoplay enabled and more than one panel, and a single panel has no controls.
\<close>

fun cb_ok :: "nat \<Rightarrow> callback \<Rightarrow> bool" where
  "cb_ok n (SlideCleanup index) = (0 \<le> index \<and> index < int n)"
| "cb_ok n (FadeCleanup cur nxt index) = (cur < n \<and> nxt < n \<and> 0 \<le> index \<and> index < int n)"

fun dots_fit :: "bool list option \<Rightarrow> nat \<Rightarrow> bool" where
  "dots_fit None n = True"
| "dots_fit (Some ds) n = (length ds = n)"

fun serialized :: "(nat \<times> callback) list \<Rightarrow> bool \<Rightarrow> nat \<Rightarrow> bool" where
  "serialized [] transitioning n = (\<not> transitioning)"
| "serialized ((delay, cb) # rest) transitioning n =
     (transitioning \<and> rest = [] \<and> delay = 500 \<and> cb_ok n cb)"

fun timer_ok :: "int option \<Rightarrow> bool \<Rightarrow> nat \<Rightarrow> bool" where
  "timer_ok None enabled n = True"
| "timer_ok (Some t) enabled n = (enabled \<and> 1 < n)"

definition bare :: "carousel \<Rightarrow> bool" where
  "bare c \<longleftrightarrow> \<not> prevArrow c \<and> \<not> nextArrow c \<and> dots c = None \<and> playPauseBtn c = None"

definition consistent :: "carousel \<Rightarrow> bool" where
  "consistent c \<longleftrightarrow>
     element c \<and> listening c \<and> slides c \<noteq> [] \<and> carouselInner c \<noteq> None \<and>
     0 \<le> currentSlide c \<and> currentSlide c < int (length (slides c)) \<and>
     dots_fit (dots c) (length (slides c)) \<and>
     serialized (timeouts c) (isTransitioning c) (length (slides c)) \<and>
     timer_ok (autoplayTimer c) (autoplay (options c)) (length (slides c)) \<and>
     (1 < length (slides c) \<or> bare c)"

subsection \<open>Auxiliary functions for the proofs\<close>

text \<open>
  The index a scheduled callback carries, the boundary computation of \<open>goToSlide\<close> (lines
  315 to 319) as a function of its own, and the panel and dot lists that \<open>markActive\<close>,
  \<open>fadeToSlide\<close> and the fade clean-up produce.
\<close>

fun callback_index :: "callback \<Rightarrow> int" where
  "callback_index (SlideCleanup index) = index"
| "callback_index (FadeCleanup cur nxt index) = index"

definition lit_slides :: "slide list \<Rightarrow> nat \<Rightarrow> slide list" where
  "lit_slides xs i = (map (\<lambda>s. s\<lparr>slide_active := False\<rparr>) xs)[i := (xs ! i)\<lparr>slide_active := True\<rparr>]"

definition lit_dots :: "bool list option \<Rightarrow> nat \<Rightarrow> bool list option" where
  "lit_dots d i = map_option (\<lambda>ds. (map (\<lambda>_. False) ds)[i := True]) d"

definition resolved :: "carousel \<Rightarrow> int \<Rightarrow> int" where
  "resolved c index =
     (if index \<ge> int (length (slides c)) then
        (if loop (options c) then 0 else int (length (slides c)) - 1)
      else if index < 0 then (if loop (options c) then int (length (slides c)) - 1 else 0)
      else index)"

definition fading :: "slide list \<Rightarrow> nat \<Rightarrow> nat \<Rightarrow> slide list" where
  "fading xs cur nxt =
     (let xs1 = xs[nxt := (xs ! nxt)\<lparr>slide_opacity := ''0'', slide_active := True\<rparr>];
          xs2 = xs1[cur := (xs1 ! cur)\<lparr>slide_transition := fade_css\<rparr>]
      in xs2[nxt := (xs2 ! nxt)\<lparr>slide_transition := fade_css\<rparr>])"

definition faded :: "slide list \<Rightarrow> nat \<Rightarrow> nat \<Rightarrow> slide list" where
  "faded xs cur nxt =
     (let xs1 = xs[cur := (xs ! cur)\<lparr>slide_active := False, slide_opacity := [],
                                     slide_transition := []\<rparr>]
      in xs1[nxt := (xs1 ! nxt)\<lparr>slide_opacity := [], slide_transition := []\<rparr>])"

text \<open>The state in which \<open>init\<close> leaves a carousel built over an element.\<close>

definition built :: "slide list \<Rightarrow> carousel_options \<Rightarrow> carousel" where
  "built children opts =
     (let c3 = bindEvents (createControls (setupCarousel (fresh True opts) children))
      in if autoplay (options c3) then startAutoplay c3 else c3)"

subsection \<open>The specification's boundary policy, and scenarios\<close>

text \<open>
  The boundary policy of \<open>goTo\<close> as the specification words it (section 4.1), to be
  compared with what \<open>goToSlide\<close> computes.
\<close>

definition boundary_policy :: "bool \<Rightarrow> int \<Rightarrow> int \<Rightarrow> int" where
  "boundary_policy loop_enabled slideCount targetIndex =
     (if targetIndex \<ge> slideCount then (if loop_enabled then 0 else slideCount - 1)
      else if targetIndex < 0 then (if loop_enabled then slideCount - 1 else 0)
      else targetIndex)"

text \<open>
  \<open>next()\<close> followed by the expiry of the pending timeout, and \<open>k\<close> such rounds, collecting
  the index after each round; \<open>None\<close> if a call raises.
\<close>

definition advance :: "carousel \<Rightarrow> outcome" where
  "advance c = andThen (nextSlide c) timeoutFires"

fun tour :: "nat \<Rightarrow> carousel \<Rightarrow> (int list \<times> carousel) option" where
  "tour 0 c = Some ([], c)"
| "tour (Suc k) c =
     (case advance c of
        Threw e c' \<Rightarrow> None
      | Returned c' \<Rightarrow>
          (case tour k c' of
             None \<Rightarrow> None
           | Some (visited, c'') \<Rightarrow> Some (currentSlide c' # visited, c'')))"

text \<open>
  Concrete carousels: a panel without the class \<open>active\<close>, and carousels built over one,
  two and three such panels, with the default options or with \<open>loop\<close> disabled.
\<close>

definition blank :: slide where
  "blank = \<lparr>slide_active = False, slide_opacity = [], slide_transition = []\<rparr>"

definition three_slides :: carousel where
  "three_slides = built [blank, blank, blank] default_options"

definition two_slides :: carousel where
  "two_slides = built [blank, blank] default_options"

definition two_slides_clamped :: carousel where
  "two_slides_clamped = built [blank, blank] (default_options\<lparr>loop := False\<rparr>)"

definition one_slide :: carousel where
  "one_slide = built [blank] default_options"

definition one_slide_clamped :: carousel where
  "one_slide_clamped = built [blank] (default_options\<lparr>loop := False\<rparr>)"

definition at_last_clamped :: carousel where
  "at_last_clamped = run two_slides_clamped [Call_next, Timeout]"

section \<open>Properties\<close>

subsection \<open>The methods on consistent states\<close>

lemma andThen_Returned [simp]: "andThen (Returned c) f = f c"
  by (simp add: andThen_def)

lemma andThen_Threw [simp]: "andThen (Threw e c) f = Threw e c"
  by (simp add: andThen_def)

lemma length_lit_slides [simp]: "length (lit_slides xs i) = length xs"
  by (simp add: lit_slides_def)

lemma active_lit_slides:
  "i < length xs \<Longrightarrow> map slide_active (lit_slides xs i) = (replicate (length xs) False)[i := True]"
  by (simp add: lit_slides_def map_update comp_def map_replicate_const)

lemma lit_dots_None [simp]: "lit_dots d i = None \<longleftrightarrow> d = None"
  by (simp add: lit_dots_def)

lemma lit_dots_simps [simp]:
  "lit_dots None i = None"
  "lit_dots (Some ds) i = Some ((map (\<lambda>_. False) ds)[i := True])"
  by (simp_all add: lit_dots_def)

lemma dots_fit_lit_dots [simp]: "dots_fit (lit_dots d i) n = dots_fit d n"
  by (cases d) simp_all

lemma lit_slides_Nil [simp]: "lit_slides xs i = [] \<longleftrightarrow> xs = []"
  by (simp add: lit_slides_def)

lemma lit_dots_Some: "lit_dots d i = Some ds \<Longrightarrow> \<exists>ds'. d = Some ds' \<and> length ds = length ds'"
  by (auto simp: lit_dots_def)

lemma markActive_eq:
  assumes "0 \<le> i" and "i < int (length (slides c))" and "dots_fit (dots c) (length (slides c))"
  shows "markActive c i =
           Returned (c\<lparr>slides := lit_slides (slides c) (nat i), dots := lit_dots (dots c) (nat i)\<rparr>)"
proof (cases "dots c")
  case None
  have "c\<lparr>slides := lit_slides (slides c) (nat i)\<rparr> =
        c\<lparr>slides := lit_slides (slides c) (nat i), dots := None\<rparr>"
    using None by (intro carousel.equality) simp_all
  then show ?thesis
    using assms None
    by (simp add: markActive_def nth_opt_def updSlide_def lit_slides_def lit_dots_def)
next
  case (Some ds)
  then show ?thesis
    using assms
    by (simp add: markActive_def nth_opt_def updSlide_def lit_slides_def lit_dots_def)
qed

lemma updateSlideState_eq:
  assumes "element c" and "0 \<le> i" and "i < int (length (slides c))" and "dots_fit (dots c) (length (slides c))"
  shows "updateSlideState c i =
           Returned (c\<lparr>slides := lit_slides (slides c) (nat i), dots := lit_dots (dots c) (nat i),
                       currentSlide := i, isTransitioning := False,
                       events := events c @ [SlideChanged i]\<rparr>)"
  using assms by (simp add: updateSlideState_def markActive_eq dispatchEvent_def)

lemma setSlide_eq:
  assumes "0 \<le> i" and "i < int (length (slides c))" and "dots_fit (dots c) (length (slides c))"
    and "carouselInner c = Some t"
  shows "setSlide c i =
           Returned (c\<lparr>slides := lit_slides (slides c) (nat i), dots := lit_dots (dots c) (nat i),
                       currentSlide := i,
                       carouselInner := (if fadeEffect (options c) then Some t
                                         else Some (t\<lparr>track_transform := Some (- i * 100)\<rparr>)),
                       isTransitioning := False\<rparr>)"
proof (cases "fadeEffect (options c)")
  case True
  have "c\<lparr>slides := lit_slides (slides c) (nat i), dots := lit_dots (dots c) (nat i),
           currentSlide := i, isTransitioning := False\<rparr> =
        c\<lparr>slides := lit_slides (slides c) (nat i), dots := lit_dots (dots c) (nat i),
           currentSlide := i, carouselInner := Some t, isTransitioning := False\<rparr>"
    using assms(4) by (intro carousel.equality) simp_all
  then show ?thesis
    using assms True by (simp add: setSlide_def markActive_eq)
next
  case False
  then show ?thesis
    using assms by (simp add: setSlide_def markActive_eq)
qed

lemma length_fading [simp]: "length (fading xs cur nxt) = length xs"
  by (simp add: fading_def Let_def)

lemma length_faded [simp]: "length (faded xs cur nxt) = length xs"
  by (simp add: faded_def Let_def)

lemma fading_Nil [simp]: "fading xs cur nxt = [] \<longleftrightarrow> xs = []"
  by (simp add: fading_def Let_def)

lemma faded_Nil [simp]: "faded xs cur nxt = [] \<longleftrightarrow> xs = []"
  by (simp add: faded_def Let_def)

lemma resolved_range:
  "slides c \<noteq> [] \<Longrightarrow> 0 \<le> resolved c index \<and> resolved c index < int (length (slides c))"
  by (cases "slides c") (auto simp: resolved_def)

lemma consistentD:
  assumes "consistent c"
  shows "element c" and "listening c" and "slides c \<noteq> []" and "carouselInner c \<noteq> None"
    and "0 \<le> currentSlide c" and "currentSlide c < int (length (slides c))" and "dots_fit (dots c) (length (slides c))"
  using assms by (simp_all add: consistent_def)

lemma consistent_idle:
  assumes "consistent c" and "\<not> isTransitioning c"
  shows "timeouts c = []"
  using assms by (cases "timeouts c") (auto simp: consistent_def)

lemma consistent_busy:
  assumes "consistent c" and "isTransitioning c"
  shows "\<exists>cb. timeouts c = [(500, cb)] \<and> cb_ok (length (slides c)) cb"
  using assms by (cases "timeouts c") (auto simp: consistent_def)

lemma slideToSlide_eq:
  assumes "carouselInner c = Some t"
  shows "slideToSlide c i =
           Returned (c\<lparr>carouselInner := Some (t\<lparr>track_transition := slide_css,
                                                 track_transform := Some (- i * 100)\<rparr>),
                       timeouts := timeouts c @ [(500, SlideCleanup i)]\<rparr>)"
  using assms by (simp add: slideToSlide_def)

lemma fadeToSlide_eq:
  assumes "0 \<le> i" and "i < int (length (slides c))"
    and "0 \<le> currentSlide c" and "currentSlide c < int (length (slides c))"
  shows "fadeToSlide c i =
           Returned (c\<lparr>slides := fading (slides c) (nat (currentSlide c)) (nat i),
                       frames := frames c @ [(nat (currentSlide c), nat i)],
                       timeouts := timeouts c @
                         [(500, FadeCleanup (nat (currentSlide c)) (nat i) i)]\<rparr>)"
  using assms
  by (simp add: fadeToSlide_def nth_opt_def updSlide_def fading_def Let_def)

lemma goToSlide_blocked:
  "isTransitioning c \<or> index = currentSlide c \<Longrightarrow> goToSlide c index animate = Returned c"
  by (simp add: goToSlide_def)

lemma goToSlide_slide_eq:
  assumes "consistent c" and "\<not> isTransitioning c" and "index \<noteq> currentSlide c"
    and "\<not> fadeEffect (options c)" and "carouselInner c = Some t"
  shows "goToSlide c index True =
           Returned (c\<lparr>isTransitioning := True,
                       events := events c @ [SlideChange (currentSlide c) (resolved c index)],
                       carouselInner := Some (t\<lparr>track_transition := slide_css,
                                               track_transform := Some (- resolved c index * 100)\<rparr>),
                       timeouts := [(500, SlideCleanup (resolved c index))]\<rparr>)"
  using assms consistentD(1) [OF assms(1)] consistent_idle [OF assms(1,2)]
  by (simp add: goToSlide_def dispatchEvent_def slideToSlide_eq resolved_def Let_def)

lemma goToSlide_fade_eq:
  assumes "consistent c" and "\<not> isTransitioning c" and "index \<noteq> currentSlide c"
    and "fadeEffect (options c)"
  shows "goToSlide c index True =
           Returned (c\<lparr>isTransitioning := True,
                       events := events c @ [SlideChange (currentSlide c) (resolved c index)],
                       slides := fading (slides c) (nat (currentSlide c)) (nat (resolved c index)),
                       frames := frames c @ [(nat (currentSlide c), nat (resolved c index))],
                       timeouts := [(500, FadeCleanup (nat (currentSlide c))
                                            (nat (resolved c index)) (resolved c index))]\<rparr>)"
proof -
  let ?c1 = "c\<lparr>isTransitioning := True,
                events := events c @ [SlideChange (currentSlide c) (resolved c index)]\<rparr>"
  have r: "0 \<le> resolved c index" "resolved c index < int (length (slides c))"
    using resolved_range [OF consistentD(3) [OF assms(1)]] by simp_all
  have f: "fadeToSlide ?c1 (resolved c index) =
           Returned (?c1\<lparr>slides := fading (slides ?c1) (nat (currentSlide ?c1)) (nat (resolved c index)),
                       frames := frames ?c1 @ [(nat (currentSlide ?c1), nat (resolved c index))],
                       timeouts := timeouts ?c1 @
                         [(500, FadeCleanup (nat (currentSlide ?c1)) (nat (resolved c index))
                                  (resolved c index))]\<rparr>)"
    using r consistentD(5,6) [OF assms(1)] by (intro fadeToSlide_eq) simp_all
  have g: "goToSlide c index True = fadeToSlide ?c1 (resolved c index)"
    using assms(2,3,4) consistentD(1) [OF assms(1)]
    by (simp add: goToSlide_def dispatchEvent_def resolved_def Let_def)
  show ?thesis
    unfolding g f using consistent_idle [OF assms(1,2)] by simp
qed

lemma goToSlide_still_eq:
  assumes "consistent c" and "\<not> isTransitioning c" and "index \<noteq> currentSlide c"
    and "carouselInner c = Some t"
  shows "goToSlide c index False =
           Returned (c\<lparr>slides := lit_slides (slides c) (nat (resolved c index)),
                       dots := lit_dots (dots c) (nat (resolved c index)),
                       currentSlide := resolved c index,
                       carouselInner := (if fadeEffect (options c) then Some t
                                         else Some (t\<lparr>track_transform := Some (- resolved c index * 100)\<rparr>)),
                       isTransitioning := False\<rparr>)"
proof -
  have r: "0 \<le> resolved c index" "resolved c index < int (length (slides c))"
    using resolved_range [OF consistentD(3) [OF assms(1)]] by simp_all
  have g: "goToSlide c index False = setSlide c (resolved c index)"
    using assms(2,3) by (simp add: goToSlide_def resolved_def Let_def)
  show ?thesis
    unfolding g using r consistentD(7) [OF assms(1)] assms(4) by (rule setSlide_eq)
qed

lemma goToSlide_animated:
  assumes "consistent c" and "\<not> isTransitioning c" and "index \<noteq> currentSlide c"
  shows "\<exists>c' cb. goToSlide c index True = Returned c' \<and> consistent c' \<and> isTransitioning c' \<and>
           events c' = events c @ [SlideChange (currentSlide c) (resolved c index)] \<and>
           timeouts c' = [(500, cb)] \<and> callback_index cb = resolved c index \<and>
           currentSlide c' = currentSlide c \<and> length (slides c') = length (slides c) \<and>
           options c' = options c"
proof -
  have r: "0 \<le> resolved c index" "resolved c index < int (length (slides c))"
    using resolved_range [OF consistentD(3) [OF assms(1)]] by simp_all
  show ?thesis
  proof (cases "fadeEffect (options c)")
    case True
    have "consistent
            (c\<lparr>isTransitioning := True,
               events := events c @ [SlideChange (currentSlide c) (resolved c index)],
               slides := fading (slides c) (nat (currentSlide c)) (nat (resolved c index)),
               frames := frames c @ [(nat (currentSlide c), nat (resolved c index))],
               timeouts := [(500, FadeCleanup (nat (currentSlide c))
                                    (nat (resolved c index)) (resolved c index))]\<rparr>)"
      using assms(1) r by (simp add: consistent_def bare_def nat_less_iff)
    then show ?thesis
      unfolding goToSlide_fade_eq [OF assms True] by simp
  next
    case False
    from consistentD(4) [OF assms(1)] obtain t where t: "carouselInner c = Some t"
      by blast
    have "consistent
            (c\<lparr>isTransitioning := True,
               events := events c @ [SlideChange (currentSlide c) (resolved c index)],
               carouselInner := Some (t\<lparr>track_transition := slide_css,
                                       track_transform := Some (- resolved c index * 100)\<rparr>),
               timeouts := [(500, SlideCleanup (resolved c index))]\<rparr>)"
      using assms(1) r by (simp add: consistent_def bare_def nat_less_iff)
    then show ?thesis
      unfolding goToSlide_slide_eq [OF assms False t] by simp
  qed
qed

lemma goToSlide_placed:
  assumes "consistent c" and "\<not> isTransitioning c" and "index \<noteq> currentSlide c"
  shows "\<exists>c'. goToSlide c index False = Returned c' \<and> consistent c' \<and> \<not> isTransitioning c' \<and>
           events c' = events c \<and> timeouts c' = [] \<and>
           currentSlide c' = resolved c index \<and> length (slides c') = length (slides c) \<and>
           options c' = options c"
proof -
  have r: "0 \<le> resolved c index" "resolved c index < int (length (slides c))"
    using resolved_range [OF consistentD(3) [OF assms(1)]] by simp_all
  from consistentD(4) [OF assms(1)] obtain t where t: "carouselInner c = Some t"
    by blast
  have "consistent
          (c\<lparr>slides := lit_slides (slides c) (nat (resolved c index)),
             dots := lit_dots (dots c) (nat (resolved c index)),
             currentSlide := resolved c index,
             carouselInner := (if fadeEffect (options c) then Some t
                               else Some (t\<lparr>track_transform := Some (- resolved c index * 100)\<rparr>)),
             isTransitioning := False\<rparr>)"
    using assms(1) r consistent_idle [OF assms(1,2)]
    by (simp add: consistent_def bare_def)
  then show ?thesis
    unfolding goToSlide_still_eq [OF assms t] using consistent_idle [OF assms(1,2)] by simp
qed

lemma goToSlide_consistent:
  assumes "consistent c"
  shows "\<exists>c'. goToSlide c index animate = Returned c' \<and> consistent c' \<and>
           length (slides c') = length (slides c) \<and> options c' = options c"
proof (cases "isTransitioning c \<or> index = currentSlide c")
  case True
  then show ?thesis
    using assms by (simp add: goToSlide_blocked)
next
  case False
  then have f: "\<not> isTransitioning c" "index \<noteq> currentSlide c"
    by simp_all
  show ?thesis
  proof (cases animate)
    case True
    then have "animate = True"
      by simp
    then show ?thesis
      using goToSlide_animated [OF assms f] by blast
  next
    case False
    then have "animate = False"
      by simp
    then show ?thesis
      using goToSlide_placed [OF assms f] by blast
  qed
qed

lemma timeoutFires_idle: "timeouts c = [] \<Longrightarrow> timeoutFires c = Returned c"
  by (simp add: timeoutFires_def)

lemma timeoutFires_slide_eq:
  assumes "consistent c" and "timeouts c = [(d, SlideCleanup i)]" and "carouselInner c = Some t"
  shows "timeoutFires c =
           Returned (c\<lparr>timeouts := [], carouselInner := Some (t\<lparr>track_transition := []\<rparr>),
                       slides := lit_slides (slides c) (nat i), dots := lit_dots (dots c) (nat i),
                       currentSlide := i, isTransitioning := False,
                       events := events c @ [SlideChanged i]\<rparr>)"
proof -
  have ok: "0 \<le> i" "i < int (length (slides c))"
    using assms(1,2) by (simp_all add: consistent_def)
  let ?c1 = "c\<lparr>timeouts := [], carouselInner := Some (t\<lparr>track_transition := []\<rparr>)\<rparr>"
  have "timeoutFires c = updateSlideState ?c1 i"
    using assms(2,3) by (simp add: timeoutFires_def)
  also have "\<dots> = Returned (?c1\<lparr>slides := lit_slides (slides ?c1) (nat i),
                                  dots := lit_dots (dots ?c1) (nat i),
                                  currentSlide := i, isTransitioning := False,
                                  events := events ?c1 @ [SlideChanged i]\<rparr>)"
    using ok consistentD(1,7) [OF assms(1)] by (intro updateSlideState_eq) simp_all
  finally show ?thesis
    by simp
qed

lemma timeoutFires_fade_eq:
  assumes "consistent c" and "timeouts c = [(d, FadeCleanup cur nxt i)]"
  shows "timeoutFires c =
           Returned (c\<lparr>timeouts := [],
                       slides := lit_slides (faded (slides c) cur nxt) (nat i),
                       dots := lit_dots (dots c) (nat i),
                       currentSlide := i, isTransitioning := False,
                       events := events c @ [SlideChanged i]\<rparr>)"
proof -
  have ok: "0 \<le> i" "i < int (length (slides c))"
    using assms(1,2) by (simp_all add: consistent_def)
  let ?c1 = "c\<lparr>timeouts := [], slides := faded (slides c) cur nxt\<rparr>"
  have "timeoutFires c = updateSlideState ?c1 i"
    using assms(2) by (simp add: timeoutFires_def updSlide_def faded_def Let_def)
  also have "\<dots> = Returned (?c1\<lparr>slides := lit_slides (slides ?c1) (nat i),
                                  dots := lit_dots (dots ?c1) (nat i),
                                  currentSlide := i, isTransitioning := False,
                                  events := events ?c1 @ [SlideChanged i]\<rparr>)"
    using ok consistentD(1,7) [OF assms(1)] by (intro updateSlideState_eq) simp_all
  finally show ?thesis
    by simp
qed

lemma timeoutFires_settles:
  assumes "consistent c" and "isTransitioning c"
  shows "\<exists>c' cb. timeouts c = [(500, cb)] \<and> timeoutFires c = Returned c' \<and> consistent c' \<and>
           \<not> isTransitioning c' \<and> events c' = events c @ [SlideChanged (callback_index cb)] \<and>
           currentSlide c' = callback_index cb \<and> timeouts c' = [] \<and>
           length (slides c') = length (slides c) \<and> options c' = options c \<and>
           map slide_active (slides c') =
             (replicate (length (slides c)) False)[nat (callback_index cb) := True]"
proof -
  from consistent_busy [OF assms] obtain cb where
    ts: "timeouts c = [(500, cb)]" and ok: "cb_ok (length (slides c)) cb"
    by blast
  from consistentD(4) [OF assms(1)] obtain t where t: "carouselInner c = Some t"
    by blast
  show ?thesis
  proof (cases cb)
    case (SlideCleanup i)
    have "consistent
            (c\<lparr>timeouts := [], carouselInner := Some (t\<lparr>track_transition := []\<rparr>),
               slides := lit_slides (slides c) (nat i), dots := lit_dots (dots c) (nat i),
               currentSlide := i, isTransitioning := False,
               events := events c @ [SlideChanged i]\<rparr>)"
      using assms(1) ok SlideCleanup by (simp add: consistent_def bare_def)
    then show ?thesis
      using ts ok SlideCleanup
      unfolding timeoutFires_slide_eq [OF assms(1) ts [unfolded SlideCleanup] t]
      by (simp add: active_lit_slides nat_less_iff)
  next
    case (FadeCleanup cur nxt i)
    have "consistent
            (c\<lparr>timeouts := [],
               slides := lit_slides (faded (slides c) cur nxt) (nat i),
               dots := lit_dots (dots c) (nat i),
               currentSlide := i, isTransitioning := False,
               events := events c @ [SlideChanged i]\<rparr>)"
      using assms(1) ok FadeCleanup by (simp add: consistent_def bare_def)
    then show ?thesis
      using ts ok FadeCleanup
      unfolding timeoutFires_fade_eq [OF assms(1) ts [unfolded FadeCleanup]]
      by (simp add: active_lit_slides nat_less_iff)
  qed
qed

lemma timeoutFires_consistent:
  assumes "consistent c"
  shows "\<exists>c'. timeoutFires c = Returned c' \<and> consistent c' \<and>
           length (slides c') = length (slides c) \<and> options c' = options c"
proof (cases "isTransitioning c")
  case True
  then show ?thesis
    using timeoutFires_settles [OF assms] by blast
next
  case False
  then show ?thesis
    using assms consistent_idle [OF assms] by (simp add: timeoutFires_idle)
qed

lemma pauseAutoplay_eq:
  "pauseAutoplay c =
     c\<lparr>autoplayTimer := None, playPauseBtn := map_option (\<lambda>_. Play_icon) (playPauseBtn c)\<rparr>"
  by (intro carousel.equality) (simp_all add: pauseAutoplay_def split: option.splits)

lemma startAutoplay_eq:
  "startAutoplay c =
     (if \<not> autoplay (options c) \<or> length (slides c) \<le> 1 then c
      else c\<lparr>autoplayTimer := Some (autoplayDelay (options c)), isPlaying := True,
             playPauseBtn := map_option (\<lambda>_. Pause_icon) (playPauseBtn c)\<rparr>)"
  by (intro carousel.equality)
     (simp_all add: startAutoplay_def pauseAutoplay_eq Let_def split: option.splits)

lemma toggleAutoplay_eq:
  "toggleAutoplay c =
     (if isPlaying c then
        c\<lparr>isPlaying := False, autoplayTimer := None,
          playPauseBtn := map_option (\<lambda>_. Play_icon) (playPauseBtn c)\<rparr>
      else if \<not> autoplay (options c) \<or> length (slides c) \<le> 1 then c\<lparr>isPlaying := True\<rparr>
      else c\<lparr>isPlaying := True, autoplayTimer := Some (autoplayDelay (options c)),
             playPauseBtn := map_option (\<lambda>_. Pause_icon) (playPauseBtn c)\<rparr>)"
  by (simp add: toggleAutoplay_def pauseAutoplay_eq startAutoplay_eq)

lemma pauseAutoplay_consistent:
  "consistent c \<Longrightarrow> consistent (pauseAutoplay c)"
  by (simp add: pauseAutoplay_eq consistent_def bare_def)

lemma startAutoplay_consistent:
  "consistent c \<Longrightarrow> consistent (startAutoplay c)"
  by (simp add: startAutoplay_eq consistent_def bare_def)

lemma toggleAutoplay_consistent:
  "consistent c \<Longrightarrow> consistent (toggleAutoplay c)"
  by (simp add: toggleAutoplay_eq consistent_def bare_def)

lemma autoplay_frame [simp]:
  "slides (pauseAutoplay c) = slides c" "options (pauseAutoplay c) = options c"
  "slides (startAutoplay c) = slides c" "options (startAutoplay c) = options c"
  "slides (toggleAutoplay c) = slides c" "options (toggleAutoplay c) = options c"
  by (simp_all add: pauseAutoplay_eq startAutoplay_eq toggleAutoplay_eq)

subsection \<open>Every stimulus keeps a state consistent\<close>


lemma nextSlide_consistent:
  assumes "consistent c"
  shows "\<exists>c'. nextSlide c = Returned c' \<and> consistent c' \<and>
           length (slides c') = length (slides c) \<and> options c' = options c"
  unfolding nextSlide_def Let_def using assms by (rule goToSlide_consistent)

lemma prevSlide_consistent:
  assumes "consistent c"
  shows "\<exists>c'. prevSlide c = Returned c' \<and> consistent c' \<and>
           length (slides c') = length (slides c) \<and> options c' = options c"
  unfolding prevSlide_def Let_def using assms by (rule goToSlide_consistent)

lemma consistent_vars [simp]:
  "consistent (c\<lparr>vars := v\<rparr>) = consistent c"
  "consistent (c\<lparr>cursor := s\<rparr>) = consistent c"
  by (simp_all add: consistent_def bare_def)

lemma handleTouchEnd_consistent:
  assumes "consistent c"
  shows "\<exists>c'. handleTouchEnd c = Returned c' \<and> consistent c' \<and>
           length (slides c') = length (slides c) \<and> options c' = options c"
proof (cases "isDragging (vars c)")
  case False
  then show ?thesis
    using assms by (simp add: handleTouchEnd_def)
next
  case True
  define c1 where "c1 = c\<lparr>vars := (vars c)\<lparr>isDragging := False\<rparr>\<rparr>"
  define dx where "dx = endX (vars c1) - startX (vars c1)"
  define dy where "dy = endY (vars c1) - startY (vars c1)"
  define r where "r = (if \<bar>dx\<bar> > \<bar>dy\<bar> \<and> \<bar>dx\<bar> > 50 then
                         (if dx > 0 then prevSlide c1 else nextSlide c1)
                       else Returned c1)"
  have c1: "consistent c1" "length (slides c1) = length (slides c)" "options c1 = options c"
    using assms by (simp_all add: c1_def)
  have h: "handleTouchEnd c =
           andThen r (\<lambda>c2. Returned (if isPlaying c2 then startAutoplay c2 else c2))"
    using True by (simp add: handleTouchEnd_def Let_def r_def dx_def dy_def c1_def)
  have "\<exists>c2. r = Returned c2 \<and> consistent c2 \<and> length (slides c2) = length (slides c1) \<and>
          options c2 = options c1"
  proof (cases "\<bar>dx\<bar> > \<bar>dy\<bar> \<and> \<bar>dx\<bar> > 50")
    case False
    then have "r = Returned c1"
      unfolding r_def by (rule if_not_P)
    then show ?thesis
      using c1(1) by simp
  next
    case True
    then have r1: "r = (if dx > 0 then prevSlide c1 else nextSlide c1)"
      unfolding r_def by (rule if_P)
    show ?thesis
    proof (cases "dx > 0")
      case True
      then have "r = prevSlide c1"
        unfolding r1 by (rule if_P)
      then show ?thesis
        using prevSlide_consistent [OF c1(1)] by simp
    next
      case False
      then have "r = nextSlide c1"
        unfolding r1 by (rule if_not_P)
      then show ?thesis
        using nextSlide_consistent [OF c1(1)] by simp
    qed
  qed
  then obtain c2 where c2: "r = Returned c2" "consistent c2"
    "length (slides c2) = length (slides c1)" "options c2 = options c1"
    by blast
  show ?thesis
    unfolding h c2(1) using c2(2,3,4) c1(2,3) by (simp add: startAutoplay_consistent)
qed

lemma mouseup_consistent:
  assumes "consistent c"
  shows "\<exists>c'. mouseup c = Returned c' \<and> consistent c' \<and>
           length (slides c') = length (slides c) \<and> options c' = options c"
proof (cases "isMouseDown (vars c)")
  case False
  then show ?thesis
    using assms by (simp add: mouseup_def)
next
  case True
  define c1 where "c1 = c\<lparr>vars := (vars c)\<lparr>isMouseDown := False\<rparr>, cursor := []\<rparr>"
  define dx where "dx = endX (vars c1) - startX (vars c1)"
  have c1: "consistent c1" "length (slides c1) = length (slides c)" "options c1 = options c"
    using assms by (simp_all add: c1_def)
  have h: "mouseup c = (if \<bar>dx\<bar> > 50 then (if dx > 0 then prevSlide c1 else nextSlide c1)
                        else Returned c1)"
    using True by (simp add: mouseup_def Let_def dx_def c1_def)
  show ?thesis
  proof (cases "\<bar>dx\<bar> > 50")
    case False
    then have "mouseup c = Returned c1"
      unfolding h by (rule if_not_P)
    then show ?thesis
      using c1 by simp
  next
    case True
    then have h1: "mouseup c = (if dx > 0 then prevSlide c1 else nextSlide c1)"
      unfolding h by (rule if_P)
    show ?thesis
    proof (cases "dx > 0")
      case True
      then have "mouseup c = prevSlide c1"
        unfolding h1 by (rule if_P)
      then show ?thesis
        using prevSlide_consistent [OF c1(1)] c1(2,3) by simp
    next
      case False
      then have "mouseup c = nextSlide c1"
        unfolding h1 by (rule if_not_P)
      then show ?thesis
        using nextSlide_consistent [OF c1(1)] c1(2,3) by simp
    qed
  qed
qed

lemma keydown_consistent:
  assumes "consistent c"
  shows "\<exists>c'. keydown c key = Returned c' \<and> consistent c' \<and>
           length (slides c') = length (slides c) \<and> options c' = options c"
  using nextSlide_consistent [OF assms] prevSlide_consistent [OF assms]
    toggleAutoplay_consistent [OF assms] assms
  by (simp add: keydown_def)

lemma frameFires_consistent:
  assumes "consistent c"
  shows "consistent (frameFires c) \<and> length (slides (frameFires c)) = length (slides c) \<and>
         options (frameFires c) = options c"
proof (cases "frames c")
  case Nil
  then show ?thesis
    using assms by (simp add: frameFires_def)
next
  case (Cons p rest)
  obtain cur nxt where p: "p = (cur, nxt)"
    by (cases p)
  show ?thesis
    using assms Cons p by (simp add: frameFires_def updSlide_def consistent_def bare_def)
qed

lemma intervalFires_consistent:
  assumes "consistent c"
  shows "\<exists>c'. intervalFires c = Returned c' \<and> consistent c' \<and>
           length (slides c') = length (slides c) \<and> options c' = options c"
  using nextSlide_consistent [OF assms] assms
  by (cases "autoplayTimer c") (simp_all add: intervalFires_def)

lemma deliver_consistent:
  assumes "consistent c"
  shows "\<exists>c'. deliver c s = Returned c' \<and> consistent c' \<and>
           length (slides c') = length (slides c) \<and> options c' = options c"
proof (cases s)
  case Call_next
  then show ?thesis using nextSlide_consistent [OF assms] by simp
next
  case Call_prev
  then show ?thesis using prevSlide_consistent [OF assms] by simp
next
  case (Call_goTo index animate)
  then show ?thesis using goToSlide_consistent [OF assms] by simp
next
  case Call_start
  then show ?thesis using startAutoplay_consistent [OF assms] by simp
next
  case Call_pause
  then show ?thesis using pauseAutoplay_consistent [OF assms] by simp
next
  case Call_toggle
  then show ?thesis using toggleAutoplay_consistent [OF assms] by simp
next
  case Click_prev
  then show ?thesis using prevSlide_consistent [OF assms] assms by simp
next
  case Click_next
  then show ?thesis using nextSlide_consistent [OF assms] assms by simp
next
  case (Click_dot i)
  then show ?thesis
    using goToSlide_consistent [OF assms] assms
    by (cases "dots c") (simp_all add: dot_click_def)
next
  case Click_playPause
  then show ?thesis
    using toggleAutoplay_consistent [OF assms] assms
    by (cases "playPauseBtn c") simp_all
next
  case (Key key)
  then show ?thesis using keydown_consistent [OF assms] assms by simp
next
  case MouseEnter
  then show ?thesis
    using pauseAutoplay_consistent [OF assms] assms by (simp add: hover_mouseenter_def)
next
  case MouseLeave
  then show ?thesis
    using startAutoplay_consistent [OF assms] assms
    by (simp add: hover_mouseleave_def swipe_mouseleave_def Let_def)
next
  case (TouchStart x y)
  then show ?thesis
    using pauseAutoplay_consistent [of "c\<lparr>vars := (vars c)\<lparr>startX := x, startY := y, isDragging := True\<rparr>\<rparr>"]
      assms
    by (simp add: handleTouchStart_def)
next
  case (TouchMove x y)
  then show ?thesis using assms by (simp add: handleTouchMove_def)
next
  case TouchEnd
  then show ?thesis using handleTouchEnd_consistent [OF assms] assms by simp
next
  case (MouseDown x y)
  then show ?thesis using assms by (simp add: mousedown_def)
next
  case (MouseMove x y)
  then show ?thesis using assms by (simp add: mousemove_def)
next
  case MouseUp
  then show ?thesis using mouseup_consistent [OF assms] assms by simp
next
  case (Visibility hidden)
  then show ?thesis
    using pauseAutoplay_consistent [OF assms] startAutoplay_consistent [OF assms] assms
    by (simp add: visibilitychange_def)
next
  case Interval
  then show ?thesis using intervalFires_consistent [OF assms] by simp
next
  case Timeout
  then show ?thesis using timeoutFires_consistent [OF assms] by simp
next
  case Frame
  then show ?thesis using frameFires_consistent [OF assms] by simp
qed

lemma run_consistent:
  assumes "consistent c"
  shows "consistent (run c ss) \<and> length (slides (run c ss)) = length (slides c) \<and>
         options (run c ss) = options c \<and> \<not> list_ex threw (trace c ss)"
  using assms
proof (induction ss arbitrary: c)
  case Nil
  then show ?case by simp
next
  case (Cons s ss)
  from deliver_consistent [OF Cons.prems, of s] obtain c' where
    d: "deliver c s = Returned c'" and c': "consistent c'"
      "length (slides c') = length (slides c)" "options c' = options c"
    by blast
  from Cons.IH [OF c'(1)] show ?case
    using d c' by simp
qed

lemma run_append: "run c (ss @ ts) = run (run c ss) ts"
  by (induction ss arbitrary: c) simp_all

subsection \<open>Construction\<close>



lemma init_noop:
  "currentSlide c = 0 \<Longrightarrow> goToSlide c 0 animate = Returned c"
  by (simp add: goToSlide_def)

lemma createControls_fields [simp]:
  "currentSlide (createControls c) = currentSlide c"
  "slides (createControls c) = slides c"
  "options (createControls c) = options c"
  "element (createControls c) = element c"
  "isTransitioning (createControls c) = isTransitioning c"
  "timeouts (createControls c) = timeouts c"
  "events (createControls c) = events c"
  "carouselInner (createControls c) = carouselInner c"
  "autoplayTimer (createControls c) = autoplayTimer c"
  "isPlaying (createControls c) = isPlaying c"
  "frames (createControls c) = frames c"
  by (simp_all add: createControls_def createArrows_def createDots_def
      createPlayPauseButton_def Let_def)

lemma createControls_single:
  "length (slides c) \<le> 1 \<Longrightarrow> createControls c = c"
  by (simp add: createControls_def)

lemma createControls_dots:
  "dots c = None \<Longrightarrow> dots_fit (dots (createControls c)) (length (slides c))"
  by (simp add: createControls_def createArrows_def createDots_def
      createPlayPauseButton_def Let_def)

lemma setupCarousel_fields [simp]:
  "currentSlide (setupCarousel c xs) = currentSlide c"
  "slides (setupCarousel c xs) = xs"
  "options (setupCarousel c xs) = options c"
  "element (setupCarousel c xs) = element c"
  "isTransitioning (setupCarousel c xs) = isTransitioning c"
  "timeouts (setupCarousel c xs) = timeouts c"
  "events (setupCarousel c xs) = events c"
  "autoplayTimer (setupCarousel c xs) = autoplayTimer c"
  "isPlaying (setupCarousel c xs) = isPlaying c"
  "dots (setupCarousel c xs) = dots c"
  "prevArrow (setupCarousel c xs) = prevArrow c"
  "nextArrow (setupCarousel c xs) = nextArrow c"
  "playPauseBtn (setupCarousel c xs) = playPauseBtn c"
  "frames (setupCarousel c xs) = frames c"
  "carouselInner (setupCarousel c xs) = None \<longleftrightarrow> xs = [] \<and> carouselInner c = None"
  by (simp_all add: setupCarousel_def Let_def)

lemma PLSCarousel_eq: "PLSCarousel (Some children) opts = Returned (built children opts)"
  by (simp add: PLSCarousel_def init_def built_def Let_def bindEvents_def startAutoplay_eq
      fresh_def init_noop)

lemma built_fields [simp]:
  "slides (built children opts) = children"
  "options (built children opts) = opts"
  "currentSlide (built children opts) = 0"
  "events (built children opts) = []"
  "timeouts (built children opts) = []"
  "frames (built children opts) = []"
  "isTransitioning (built children opts) = False"
  "element (built children opts) = True"
  "listening (built children opts) = True"
  by (simp_all add: built_def Let_def bindEvents_def startAutoplay_eq fresh_def)

lemma built_consistent:
  assumes "children \<noteq> []"
  shows "consistent (built children opts)"
proof -
  have d: "dots_fit (dots (built children opts)) (length children)"
    using createControls_dots [of "setupCarousel (fresh True opts) children"]
    by (simp add: built_def Let_def bindEvents_def startAutoplay_eq) (simp add: fresh_def)
  have t: "timer_ok (autoplayTimer (built children opts)) (autoplay opts) (length children)"
    by (simp add: built_def Let_def bindEvents_def startAutoplay_eq) (simp add: fresh_def)
  have i: "carouselInner (built children opts) \<noteq> None"
    using assms
    by (simp add: built_def Let_def bindEvents_def startAutoplay_eq)
       (simp add: setupCarousel_def Let_def)
  have b: "1 < length children \<or> bare (built children opts)"
    by (cases "1 < length children")
       (simp_all add: built_def Let_def bindEvents_def startAutoplay_eq createControls_single
         bare_def fresh_def)
  show ?thesis
    using assms d t i b by (simp add: consistent_def)
qed

text \<open>
  Hence every state that a carousel constructed over at least one panel can reach is
  consistent.
\<close>

lemma reachable_consistent:
  assumes "children \<noteq> []"
  shows "consistent (run (built children opts) ss)"
  using run_consistent [OF built_consistent [OF assms]] by blast

subsection \<open>A transition from request to completion\<close>

lemma resolved_policy:
  "resolved c index = boundary_policy (loop (options c)) (int (length (slides c))) index"
  by (simp add: resolved_def boundary_policy_def)

lemma transition_cycle:
  assumes "consistent c" and "\<not> isTransitioning c" and "index \<noteq> currentSlide c"
  shows "\<exists>c1 cb c2. goToSlide c index True = Returned c1 \<and> consistent c1 \<and>
           isTransitioning c1 \<and> currentSlide c1 = currentSlide c \<and>
           events c1 = events c @ [SlideChange (currentSlide c) (resolved c index)] \<and>
           timeouts c1 = [(500, cb)] \<and> callback_index cb = resolved c index \<and>
           timeoutFires c1 = Returned c2 \<and> consistent c2 \<and> \<not> isTransitioning c2 \<and>
           timeouts c2 = [] \<and> currentSlide c2 = resolved c index \<and>
           events c2 = events c @ [SlideChange (currentSlide c) (resolved c index),
                                   SlideChanged (resolved c index)] \<and>
           length (slides c2) = length (slides c) \<and> options c2 = options c"
proof -
  from goToSlide_animated [OF assms] obtain c1 cb where
    c1: "goToSlide c index True = Returned c1" "consistent c1" "isTransitioning c1"
      "events c1 = events c @ [SlideChange (currentSlide c) (resolved c index)]"
      "timeouts c1 = [(500, cb)]" "callback_index cb = resolved c index"
      "currentSlide c1 = currentSlide c" "length (slides c1) = length (slides c)"
      "options c1 = options c"
    by blast
  from timeoutFires_settles [OF c1(2,3)] obtain c2 cb' where
    c2: "timeouts c1 = [(500, cb')]" "timeoutFires c1 = Returned c2" "consistent c2"
      "\<not> isTransitioning c2" "events c2 = events c1 @ [SlideChanged (callback_index cb')]"
      "currentSlide c2 = callback_index cb'" "timeouts c2 = []"
      "length (slides c2) = length (slides c1)" "options c2 = options c1"
    by blast
  have "cb' = cb"
    using c1(5) c2(1) by simp
  then show ?thesis
    using c1 c2 by simp
qed

lemma advance_step:
  assumes "consistent c" and "\<not> isTransitioning c"
  shows "\<exists>c'. advance c = Returned c' \<and> consistent c' \<and> \<not> isTransitioning c' \<and>
           currentSlide c' = resolved c (currentSlide c + 1) \<and>
           length (slides c') = length (slides c) \<and> options c' = options c"
proof -
  have "currentSlide c + 1 \<noteq> currentSlide c"
    by simp
  from transition_cycle [OF assms this] show ?thesis
    unfolding advance_def nextSlide_def Let_def by auto
qed

lemma tour_climb:
  assumes "consistent c" and "\<not> isTransitioning c" and "loop (options c)"
    and "currentSlide c = int k" and "k + j < length (slides c)"
  shows "\<exists>c'. tour j c = Some (map int [Suc k..<Suc (k + j)], c') \<and> consistent c' \<and>
           \<not> isTransitioning c' \<and> currentSlide c' = int (k + j) \<and>
           length (slides c') = length (slides c) \<and> options c' = options c"
  using assms
proof (induction j arbitrary: c k)
  case 0
  then show ?case by simp
next
  case (Suc j)
  from advance_step [OF Suc.prems(1,2)] obtain c1 where
    c1: "advance c = Returned c1" "consistent c1" "\<not> isTransitioning c1"
      "currentSlide c1 = resolved c (currentSlide c + 1)"
      "length (slides c1) = length (slides c)" "options c1 = options c"
    by blast
  have cur: "currentSlide c1 = int (Suc k)"
    using c1(4) Suc.prems(4,5) by (simp add: resolved_def)
  have "Suc k + j < length (slides c1)"
    using Suc.prems(5) c1(5) by simp
  from Suc.IH [OF c1(2,3) _ cur this] obtain c' where
    c': "tour j c1 = Some (map int [Suc (Suc k)..<Suc (Suc k + j)], c')" "consistent c'"
      "\<not> isTransitioning c'" "currentSlide c' = int (Suc k + j)"
      "length (slides c') = length (slides c1)" "options c' = options c1"
    using c1(6) Suc.prems(3) by auto
  have "[Suc k..<Suc (k + Suc j)] = Suc k # [Suc (Suc k)..<Suc (Suc k + j)]"
    by (simp add: upt_conv_Cons)
  then show ?case
    using c1 c' cur by simp
qed

lemma tour_append:
  assumes "tour j c = Some (xs, c1)" and "tour i c1 = Some (ys, c2)"
  shows "tour (j + i) c = Some (xs @ ys, c2)"
  using assms
proof (induction j arbitrary: c xs)
  case 0
  then show ?case by simp
next
  case (Suc j)
  from Suc.prems(1) obtain c' zs where
    a: "advance c = Returned c'" and t: "tour j c' = Some (zs, c1)"
    and xs: "xs = currentSlide c' # zs"
    by (auto split: outcome.splits option.splits)
  from Suc.IH [OF t Suc.prems(2)] show ?case
    using a xs by simp
qed

subsection \<open>No panel, one panel\<close>

lemma zero_panels_construct:
  "PLSCarousel (Some []) opts = Returned (built [] opts) \<and> bare (built [] opts) \<and>
   autoplayTimer (built [] opts) = None \<and> slides (built [] opts) = [] \<and>
   events (built [] opts) = [] \<and> timeouts (built [] opts) = [] \<and>
   \<not> isTransitioning (built [] opts)"
  by (simp add: PLSCarousel_eq)
     (simp add: built_def Let_def bindEvents_def startAutoplay_eq createControls_single
       bare_def fresh_def setupCarousel_def)

lemma zero_panels_next_throws:
  "threw (nextSlide (built [] default_options)) \<and>
   isTransitioning (state_of (nextSlide (built [] default_options))) \<and>
   events (state_of (nextSlide (built [] default_options))) = [SlideChange 0 0]"
  by code_simp

lemma single_slide_never_armed:
  "bare (run (built [s] opts) ss) \<and> autoplayTimer (run (built [s] opts) ss) = None"
proof -
  have c: "consistent (built [s] opts)"
    by (simp add: built_consistent)
  from run_consistent [OF c, of ss]
  have r: "consistent (run (built [s] opts) ss)" "length (slides (run (built [s] opts) ss)) = 1"
    by simp_all
  show ?thesis
    using r by (cases "autoplayTimer (run (built [s] opts) ss)") (simp_all add: consistent_def)
qed

subsection \<open>What the release handlers test\<close>

lemma touch_release:
  assumes "isDragging (vars c)"
  shows "handleTouchEnd c =
           andThen
             (if \<bar>endX (vars c) - startX (vars c)\<bar> > \<bar>endY (vars c) - startY (vars c)\<bar> \<and>
                 \<bar>endX (vars c) - startX (vars c)\<bar> > 50
              then (if endX (vars c) - startX (vars c) > 0
                    then prevSlide (c\<lparr>vars := (vars c)\<lparr>isDragging := False\<rparr>\<rparr>)
                    else nextSlide (c\<lparr>vars := (vars c)\<lparr>isDragging := False\<rparr>\<rparr>))
              else Returned (c\<lparr>vars := (vars c)\<lparr>isDragging := False\<rparr>\<rparr>))
             (\<lambda>c2. Returned (if isPlaying c2 then startAutoplay c2 else c2))"
  using assms by (simp add: handleTouchEnd_def Let_def)

lemma mouse_release:
  assumes "isMouseDown (vars c)"
  shows "mouseup c =
           (if \<bar>endX (vars c) - startX (vars c)\<bar> > 50
            then (if endX (vars c) - startX (vars c) > 0
                  then prevSlide (c\<lparr>vars := (vars c)\<lparr>isMouseDown := False\<rparr>, cursor := []\<rparr>)
                  else nextSlide (c\<lparr>vars := (vars c)\<lparr>isMouseDown := False\<rparr>, cursor := []\<rparr>))
            else Returned (c\<lparr>vars := (vars c)\<lparr>isMouseDown := False\<rparr>, cursor := []\<rparr>))"
  using assms by (simp add: mouseup_def Let_def)

lemma touch_examples:
  "events (run three_slides [TouchStart 100 100, TouchMove 151 110, TouchEnd]) = [SlideChange 0 2]"
  "events (run three_slides [TouchStart 100 100, TouchMove 49 110, TouchEnd]) = [SlideChange 0 1]"
  "events (run three_slides [TouchStart 100 100, TouchMove 149 100, TouchEnd]) = []"
  "events (run three_slides [TouchStart 100 100, TouchMove 160 170, TouchEnd]) = []"
  by code_simp+

text \<open>
  Neither press handler resets the end coordinates, so a press released without any
  movement is measured against the end of the previous gesture (initially the origin).
\<close>

lemma stale_end_coordinates:
  "events (run three_slides [TouchStart 200 100, TouchEnd]) = [SlideChange 0 1]"
  "events (run three_slides [MouseDown 200 100, MouseUp]) = [SlideChange 0 1]"
  by code_simp+

section \<open>The claims\<close>

text \<open>
  C1, as amended. In a settled carousel with more than one panel, \<open>next()\<close> called twice
  with nothing in between starts one transition: the first call sets \<open>isTransitioning\<close>,
  dispatches one \<open>slideChange\<close> and schedules one completion callback; the second call,
  like any navigation request made before that callback runs, returns the state
  unchanged; the callback then dispatches the only \<open>slideChanged\<close>, carrying the target
  of the first call. When \<open>loop\<close> is enabled or the start is not the last index, this
  target is the start plus one modulo \<open>slideCount\<close>.
\<close>

theorem next_twice_one_transition:
  assumes "consistent c" and "\<not> isTransitioning c" and "1 < length (slides c)"
  shows "\<exists>c1 cb c2 target.
           nextSlide c = Returned c1 \<and> isTransitioning c1 \<and> timeouts c1 = [(500, cb)] \<and>
           events c1 = events c @ [SlideChange (currentSlide c) target] \<and>
           nextSlide c1 = Returned c1 \<and>
           (\<forall>index animate. goToSlide c1 index animate = Returned c1) \<and>
           andThen (andThen (nextSlide c) nextSlide) timeoutFires = Returned c2 \<and>
           \<not> isTransitioning c2 \<and> timeouts c2 = [] \<and> currentSlide c2 = target \<and>
           events c2 = events c @ [SlideChange (currentSlide c) target, SlideChanged target] \<and>
           (loop (options c) \<or> currentSlide c + 1 < int (length (slides c)) \<longrightarrow>
              target = (currentSlide c + 1) mod int (length (slides c)))"
proof -
  have ne: "currentSlide c + 1 \<noteq> currentSlide c"
    by simp
  from transition_cycle [OF assms(1,2) ne] obtain c1 cb c2 where
    t: "goToSlide c (currentSlide c + 1) True = Returned c1" "isTransitioning c1"
      "events c1 = events c @ [SlideChange (currentSlide c) (resolved c (currentSlide c + 1))]"
      "timeouts c1 = [(500, cb)]" "timeoutFires c1 = Returned c2" "\<not> isTransitioning c2"
      "timeouts c2 = []" "currentSlide c2 = resolved c (currentSlide c + 1)"
      "events c2 = events c @ [SlideChange (currentSlide c) (resolved c (currentSlide c + 1)),
                               SlideChanged (resolved c (currentSlide c + 1))]"
    by blast
  have n1: "nextSlide c = Returned c1"
    using t(1) by (simp add: nextSlide_def)
  have blocked: "goToSlide c1 index animate = Returned c1" for index animate
    using t(2) by (simp add: goToSlide_blocked)
  have n2: "nextSlide c1 = Returned c1"
    using blocked by (simp add: nextSlide_def)
  have m: "resolved c (currentSlide c + 1) = (currentSlide c + 1) mod int (length (slides c))"
    if "loop (options c) \<or> currentSlide c + 1 < int (length (slides c))"
  proof (cases "currentSlide c + 1 < int (length (slides c))")
    case True
    then show ?thesis
      using consistentD(5) [OF assms(1)] by (simp add: resolved_def)
  next
    case False
    then have "currentSlide c + 1 = int (length (slides c))"
      using consistentD(6) [OF assms(1)] by simp
    then show ?thesis
      using that False by (simp add: resolved_def)
  qed
  show ?thesis
    using n1 n2 blocked t m by simp
qed

theorem next_twice_one_transition_witness:
  "consistent three_slides \<and> \<not> isTransitioning three_slides \<and>
   1 < length (slides three_slides) \<and> loop (options three_slides) \<and>
   (\<exists>c1 cb c2.
      nextSlide three_slides = Returned c1 \<and> isTransitioning c1 \<and> timeouts c1 = [(500, cb)] \<and>
      nextSlide c1 = Returned c1 \<and>
      andThen (andThen (nextSlide three_slides) nextSlide) timeoutFires = Returned c2 \<and>
      currentSlide c2 = 1 \<and>
      events c2 = [SlideChange 0 1, SlideChanged 1])"
proof -
  have h: "consistent three_slides" "\<not> isTransitioning three_slides"
    "1 < length (slides three_slides)"
    by code_simp+
  have v: "loop (options three_slides)" "currentSlide three_slides = 0"
    "int (length (slides three_slides)) = 3" "events three_slides = []"
    by code_simp+
  show ?thesis
    using h v next_twice_one_transition [OF h] by auto
qed

text \<open>
  C1 as stated fails with \<open>loop\<close> disabled at the last index: of two panels, standing at
  index 1, the two calls and the callback dispatch \<open>slideChanged\<close> with index 1, the
  starting index itself, not one step past it.
\<close>

theorem next_twice_at_clamped_end:
  "consistent at_last_clamped \<and> \<not> isTransitioning at_last_clamped \<and>
   length (slides at_last_clamped) = 2 \<and> currentSlide at_last_clamped = 1 \<and>
   andThen (andThen (nextSlide at_last_clamped) nextSlide) timeoutFires =
     Returned (run at_last_clamped [Call_next, Call_next, Timeout]) \<and>
   drop (length (events at_last_clamped))
     (events (run at_last_clamped [Call_next, Call_next, Timeout])) =
     [SlideChange 1 1, SlideChanged 1] \<and>
   currentSlide (run at_last_clamped [Call_next, Call_next, Timeout]) = 1 \<and>
   last (events (run at_last_clamped [Call_next, Call_next, Timeout])) \<noteq>
     SlideChanged (currentSlide at_last_clamped + 1)"
  by code_simp

text \<open>
  C2. In a carousel with at least one panel, a request that passes the guard of
  \<open>goToSlide\<close> resolves its target by the specification's boundary policy: a target at or
  beyond \<open>slideCount\<close> becomes 0 with \<open>loop\<close> and \<open>slideCount - 1\<close> without, a negative target
  becomes \<open>slideCount - 1\<close> with \<open>loop\<close> and 0 without, any other target is kept. The resolved
  index is the \<open>to\<close> of the \<open>slideChange\<close> event, the index the completion callback carries
  and applies, and the index a non-animated placement sets.
\<close>

theorem goTo_boundary_policy:
  assumes "consistent c" and "\<not> isTransitioning c" and "targetIndex \<noteq> currentSlide c"
  shows "\<exists>c1 cb c2 c3.
           goToSlide c targetIndex True = Returned c1 \<and>
           events c1 = events c @
             [SlideChange (currentSlide c)
                (boundary_policy (loop (options c)) (int (length (slides c))) targetIndex)] \<and>
           timeouts c1 = [(500, cb)] \<and>
           callback_index cb =
             boundary_policy (loop (options c)) (int (length (slides c))) targetIndex \<and>
           timeoutFires c1 = Returned c2 \<and>
           currentSlide c2 =
             boundary_policy (loop (options c)) (int (length (slides c))) targetIndex \<and>
           goToSlide c targetIndex False = Returned c3 \<and>
           currentSlide c3 =
             boundary_policy (loop (options c)) (int (length (slides c))) targetIndex"
proof -
  from transition_cycle [OF assms] obtain c1 cb c2 where
    a: "goToSlide c targetIndex True = Returned c1"
      "events c1 = events c @ [SlideChange (currentSlide c) (resolved c targetIndex)]"
      "timeouts c1 = [(500, cb)]" "callback_index cb = resolved c targetIndex"
      "timeoutFires c1 = Returned c2" "currentSlide c2 = resolved c targetIndex"
    by blast
  from goToSlide_placed [OF assms] obtain c3 where
    b: "goToSlide c targetIndex False = Returned c3" "currentSlide c3 = resolved c targetIndex"
    by blast
  show ?thesis
    using a b by (simp add: resolved_policy)
qed

theorem goTo_boundary_policy_witness:
  "consistent three_slides \<and> \<not> isTransitioning three_slides \<and> 7 \<noteq> currentSlide three_slides \<and>
   boundary_policy (loop (options three_slides)) (int (length (slides three_slides))) 7 = 0 \<and>
   (\<exists>c1 cb c2 c3.
      goToSlide three_slides 7 True = Returned c1 \<and>
      events c1 = events three_slides @ [SlideChange (currentSlide three_slides) 0] \<and>
      timeouts c1 = [(500, cb)] \<and> callback_index cb = 0 \<and>
      timeoutFires c1 = Returned c2 \<and> currentSlide c2 = 0 \<and>
      goToSlide three_slides 7 False = Returned c3 \<and> currentSlide c3 = 0)"
proof -
  have h: "consistent three_slides" "\<not> isTransitioning three_slides"
    "7 \<noteq> currentSlide three_slides"
    by (simp_all add: three_slides_def built_consistent)
  have p: "boundary_policy (loop (options three_slides)) (int (length (slides three_slides))) 7 = 0"
    by (simp add: three_slides_def boundary_policy_def default_options_def)
  show ?thesis
    using h p goTo_boundary_policy [OF h] by simp
qed

text \<open>
  C3. In a carousel with more than one panel and \<open>loop\<close> enabled, standing settled at index
  0, \<open>slideCount\<close> rounds of \<open>next()\<close>, each followed by the completion of its transition,
  all return, settle at the indices 1, 2, ..., \<open>slideCount - 1\<close>, 0 in this order, and end at
  index 0. The indices settled at are pairwise different and are exactly those of
  \<open>[0, slideCount)\<close>: each is visited once.
\<close>

theorem loop_round_trip:
  assumes "consistent c" and "\<not> isTransitioning c" and "loop (options c)"
    and "currentSlide c = 0" and "1 < length (slides c)"
  shows "\<exists>c'. tour (length (slides c)) c = Some (map int [1..<length (slides c)] @ [0], c') \<and>
           currentSlide c' = 0 \<and> \<not> isTransitioning c' \<and>
           distinct (map int [1..<length (slides c)] @ [0]) \<and>
           set (map int [1..<length (slides c)] @ [0]) = {0..<int (length (slides c))}"
proof -
  define n where "n = length (slides c)"
  have n: "1 < n"
    using assms(5) by (simp add: n_def)
  have "0 + (n - 1) < length (slides c)"
    using n by (simp add: n_def)
  from tour_climb [OF assms(1,2,3) _ this] assms(4) obtain c1 where
    c1: "tour (n - 1) c = Some (map int [Suc 0..<Suc (n - 1)], c1)" "consistent c1"
      "\<not> isTransitioning c1" "currentSlide c1 = int (n - 1)"
      "length (slides c1) = length (slides c)" "options c1 = options c"
    by auto
  from advance_step [OF c1(2,3)] obtain c2 where
    c2: "advance c1 = Returned c2" "\<not> isTransitioning c2"
      "currentSlide c2 = resolved c1 (currentSlide c1 + 1)"
    by blast
  have wrap: "currentSlide c2 = 0"
    using c2(3) c1(4,5,6) assms(3) n by (simp add: resolved_def n_def)
  have last: "tour 1 c1 = Some ([0], c2)"
    using c2(1) wrap by simp
  have "tour ((n - 1) + 1) c = Some (map int [Suc 0..<Suc (n - 1)] @ [0], c2)"
    using c1(1) last by (rule tour_append)
  then have t: "tour n c = Some (map int [1..<n] @ [0], c2)"
    using n by simp
  have d: "distinct (map int [1..<n] @ [0])"
    by (auto simp: distinct_map inj_on_def)
  have s: "set (map int [1..<n] @ [0]) = {0..<int n}"
  proof (rule set_eqI)
    fix x :: int
    show "x \<in> set (map int [1..<n] @ [0]) \<longleftrightarrow> x \<in> {0..<int n}"
    proof
      assume "x \<in> set (map int [1..<n] @ [0])"
      then show "x \<in> {0..<int n}"
        using n by auto
    next
      assume x: "x \<in> {0..<int n}"
      show "x \<in> set (map int [1..<n] @ [0])"
      proof (cases "x = 0")
        case True
        then show ?thesis by simp
      next
        case False
        then have "nat x \<in> {1..<n}" and "x = int (nat x)"
          using x by auto
        then show ?thesis
          by (metis Un_iff image_eqI set_append set_map set_upt)
      qed
    qed
  qed
  show ?thesis
    using t wrap c2(2) d s by (simp add: n_def)
qed

theorem loop_round_trip_witness:
  "consistent three_slides \<and> \<not> isTransitioning three_slides \<and> loop (options three_slides) \<and>
   currentSlide three_slides = 0 \<and> 1 < length (slides three_slides) \<and>
   (\<exists>c'. tour 3 three_slides = Some ([1, 2, 0], c') \<and> currentSlide c' = 0)"
proof -
  have h: "consistent three_slides" "\<not> isTransitioning three_slides"
    "loop (options three_slides)" "currentSlide three_slides = 0"
    "1 < length (slides three_slides)"
    by (simp_all add: three_slides_def built_consistent default_options_def)
  have l: "length (slides three_slides) = 3"
    by (simp add: three_slides_def)
  have u: "map int [1..<3] @ [0] = [1, 2, 0]"
    by (simp add: upt_conv_Cons)
  show ?thesis
    using h loop_round_trip [OF h] unfolding l u by auto
qed

text \<open>
  C4. Calling \<open>goTo\<close> with the current index does nothing, in every state and with or
  without animation: the call returns the state it was given, so no transition begins,
  \<open>isTransitioning\<close> and \<open>currentSlide\<close> keep their values, no event is dispatched and no
  callback is scheduled.
\<close>

theorem goTo_current_is_noop:
  "goToSlide c (currentSlide c) animate = Returned c \<and>
   isTransitioning (state_of (goToSlide c (currentSlide c) animate)) = isTransitioning c \<and>
   currentSlide (state_of (goToSlide c (currentSlide c) animate)) = currentSlide c \<and>
   events (state_of (goToSlide c (currentSlide c) animate)) = events c \<and>
   timeouts (state_of (goToSlide c (currentSlide c) animate)) = timeouts c"
  by (simp add: goToSlide_def)

text \<open>
  C5, on the code. The constructor sets \<open>currentSlide\<close> to 0 and \<open>init\<close> ends with
  \<open>goToSlide(0, false)\<close>, which returns at its first guard since the index equals
  \<open>currentSlide\<close>: \<open>setSlide\<close> is never reached. Construction leaves the panels as it found
  them, writes no transform and dispatches no event. Over three panels without the class
  \<open>active\<close> no panel is active afterwards, whereas \<open>setSlide(0)\<close> on that state would have
  marked the first.
\<close>

theorem init_places_nothing:
  "PLSCarousel (Some children) opts = Returned (built children opts) \<and>
   slides (built children opts) = children \<and>
   carouselInner (built children opts) =
     (if children = [] then None
      else Some \<lparr>track_transition = [], track_transform = None\<rparr>) \<and>
   events (built children opts) = [] \<and>
   PLSCarousel (Some [blank, blank, blank]) default_options = Returned three_slides \<and>
   map slide_active (slides three_slides) = [False, False, False] \<and>
   map slide_active (slides (state_of (setSlide three_slides 0))) = [True, False, False]"
proof -
  have a: "carouselInner (built children opts) =
     (if children = [] then None
      else Some \<lparr>track_transition = [], track_transform = None\<rparr>)"
    by (simp add: built_def Let_def bindEvents_def startAutoplay_eq)
       (simp add: setupCarousel_def Let_def fresh_def)
  have b: "map slide_active (slides three_slides) = [False, False, False]"
    "map slide_active (slides (state_of (setSlide three_slides 0))) = [True, False, False]"
    by code_simp+
  show ?thesis
    using a b by (simp add: PLSCarousel_eq three_slides_def)
qed

text \<open>
  C6, on the code. Over a single panel, whatever the options, \<open>next()\<close> and \<open>prev()\<close> are
  not without effect: each passes the guard of \<open>goToSlide\<close> with the target 1 or -1, which
  resolves to 0, sets \<open>isTransitioning\<close>, dispatches \<open>slideChange\<close> from 0 to 0 and schedules
  the completion callback, which dispatches \<open>slideChanged\<close>.
\<close>

theorem single_slide_next_transitions:
  "PLSCarousel (Some [s]) opts = Returned (built [s] opts) \<and>
   (\<exists>c1 cb c2. nextSlide (built [s] opts) = Returned c1 \<and> isTransitioning c1 \<and>
      events c1 = [SlideChange 0 0] \<and> timeouts c1 = [(500, cb)] \<and>
      timeoutFires c1 = Returned c2 \<and> events c2 = [SlideChange 0 0, SlideChanged 0]) \<and>
   (\<exists>c1 cb c2. prevSlide (built [s] opts) = Returned c1 \<and> isTransitioning c1 \<and>
      events c1 = [SlideChange 0 0] \<and> timeouts c1 = [(500, cb)] \<and>
      timeoutFires c1 = Returned c2 \<and> events c2 = [SlideChange 0 0, SlideChanged 0])"
proof -
  have c: "consistent (built [s] opts)" "\<not> isTransitioning (built [s] opts)"
    by (simp_all add: built_consistent)
  have n: "currentSlide (built [s] opts) + 1 \<noteq> currentSlide (built [s] opts)"
    and p: "currentSlide (built [s] opts) - 1 \<noteq> currentSlide (built [s] opts)"
    by simp_all
  have r: "resolved (built [s] opts) 1 = 0" "resolved (built [s] opts) (- 1) = 0"
    by (simp_all add: resolved_def)
  show ?thesis
    using transition_cycle [OF c n] transition_cycle [OF c p] r
    by (simp add: PLSCarousel_eq nextSlide_def prevSlide_def) blast
qed

text \<open>
  C7, on the code. The \<open>mouseup\<close> listener tests the horizontal distance only. On three
  panels, a mouse drag by 60 to the right and 70 down begins a transition to the
  previous panel, and one by 60 to the left and 70 down to the next panel; the same
  movement as a touch sequence does not navigate. A press at x = 200 released without any
  movement navigates as well, the end coordinates being those of the previous gesture.
\<close>

theorem mouse_drag_ignores_vertical:
  "events (run three_slides [MouseDown 100 100, MouseMove 160 170, MouseUp]) = [SlideChange 0 2] \<and>
   isTransitioning (run three_slides [MouseDown 100 100, MouseMove 160 170, MouseUp]) \<and>
   events (run three_slides [MouseDown 100 100, MouseMove 40 170, MouseUp]) = [SlideChange 0 1] \<and>
   events (run three_slides [MouseDown 200 100, MouseUp]) = [SlideChange 0 1] \<and>
   events (run three_slides [TouchStart 100 100, TouchMove 160 170, TouchEnd]) = [] \<and>
   \<not> isTransitioning (run three_slides [TouchStart 100 100, TouchMove 160 170, TouchEnd])"
  by code_simp

text \<open>
  C8, as amended. In every state, \<open>pauseAutoplay\<close> leaves no interval armed, is idempotent,
  and keeps \<open>isPlaying\<close>, \<open>currentSlide\<close> and \<open>isTransitioning\<close>. With the hover listeners
  registered and \<open>isPlaying\<close> true, a hover-enter followed by a hover-leave leaves the
  interval armed provided autoplay is enabled in the options and there is more than one
  panel; otherwise \<open>startAutoplay\<close> does nothing and the cycle leaves no interval armed.
  After \<open>toggleAutoplay\<close> has set \<open>isPlaying\<close> to false, the same cycle leaves no interval
  armed and \<open>isPlaying\<close> false.
\<close>

theorem suspension_keeps_intent:
  "autoplayTimer (pauseAutoplay c) = None \<and>
   pauseAutoplay (pauseAutoplay c) = pauseAutoplay c \<and>
   isPlaying (pauseAutoplay c) = isPlaying c \<and>
   currentSlide (pauseAutoplay c) = currentSlide c \<and>
   isTransitioning (pauseAutoplay c) = isTransitioning c \<and>
   (listening c \<and> pauseOnHover (options c) \<and> isPlaying c \<longrightarrow>
      (autoplay (options c) \<and> 1 < length (slides c) \<longrightarrow>
         autoplayTimer (run c [MouseEnter, MouseLeave]) = Some (autoplayDelay (options c)) \<and>
         isPlaying (run c [MouseEnter, MouseLeave])) \<and>
      (\<not> (autoplay (options c) \<and> 1 < length (slides c)) \<longrightarrow>
         startAutoplay c = c \<and>
         autoplayTimer (run c [MouseEnter, MouseLeave]) = None \<and>
         isPlaying (run c [MouseEnter, MouseLeave])) \<and>
      \<not> isPlaying (toggleAutoplay c) \<and>
      autoplayTimer (run (toggleAutoplay c) [MouseEnter, MouseLeave]) = None \<and>
      \<not> isPlaying (run (toggleAutoplay c) [MouseEnter, MouseLeave]))"
proof -
  have frame: "autoplayTimer (pauseAutoplay c) = None"
    "pauseAutoplay (pauseAutoplay c) = pauseAutoplay c"
    "isPlaying (pauseAutoplay c) = isPlaying c"
    "currentSlide (pauseAutoplay c) = currentSlide c"
    "isTransitioning (pauseAutoplay c) = isTransitioning c"
    by (simp_all add: pauseAutoplay_eq option.map_comp comp_def)
  have hover: "(autoplay (options c) \<and> 1 < length (slides c) \<longrightarrow>
         autoplayTimer (run c [MouseEnter, MouseLeave]) = Some (autoplayDelay (options c)) \<and>
         isPlaying (run c [MouseEnter, MouseLeave])) \<and>
      (\<not> (autoplay (options c) \<and> 1 < length (slides c)) \<longrightarrow>
         startAutoplay c = c \<and>
         autoplayTimer (run c [MouseEnter, MouseLeave]) = None \<and>
         isPlaying (run c [MouseEnter, MouseLeave])) \<and>
      \<not> isPlaying (toggleAutoplay c) \<and>
      autoplayTimer (run (toggleAutoplay c) [MouseEnter, MouseLeave]) = None \<and>
      \<not> isPlaying (run (toggleAutoplay c) [MouseEnter, MouseLeave])"
    if "listening c" and "pauseOnHover (options c)" and "isPlaying c"
    using that
    by (simp add: pauseAutoplay_eq startAutoplay_eq toggleAutoplay_eq hover_mouseenter_def
        hover_mouseleave_def swipe_mouseleave_def Let_def)
  show ?thesis
    using frame hover by blast
qed

theorem suspension_keeps_intent_witness:
  "listening two_slides \<and> pauseOnHover (options two_slides) \<and> isPlaying two_slides \<and>
   autoplay (options two_slides) \<and> 1 < length (slides two_slides) \<and>
   autoplayTimer two_slides = Some 5000 \<and>
   autoplayTimer (run two_slides [MouseEnter]) = None \<and>
   isPlaying (run two_slides [MouseEnter]) \<and>
   autoplayTimer (run two_slides [MouseEnter, MouseLeave]) = Some 5000 \<and>
   isPlaying (run two_slides [MouseEnter, MouseLeave]) \<and>
   \<not> isPlaying (toggleAutoplay two_slides) \<and>
   autoplayTimer (run (toggleAutoplay two_slides) [MouseEnter, MouseLeave]) = None \<and>
   listening one_slide \<and> pauseOnHover (options one_slide) \<and> isPlaying one_slide \<and>
   \<not> (autoplay (options one_slide) \<and> 1 < length (slides one_slide)) \<and>
   startAutoplay one_slide = one_slide \<and>
   autoplayTimer (run one_slide [MouseEnter, MouseLeave]) = None \<and>
   isPlaying (run one_slide [MouseEnter, MouseLeave])"
proof -
  have h: "listening two_slides" "pauseOnHover (options two_slides)" "isPlaying two_slides"
    by code_simp+
  have v: "autoplay (options two_slides)" "1 < length (slides two_slides)"
    "autoplayDelay (options two_slides) = 5000" "autoplayTimer two_slides = Some 5000"
    "autoplayTimer (run two_slides [MouseEnter]) = None"
    "isPlaying (run two_slides [MouseEnter])"
    by code_simp+
  have h1: "listening one_slide" "pauseOnHover (options one_slide)" "isPlaying one_slide"
    by code_simp+
  have v1: "\<not> (autoplay (options one_slide) \<and> 1 < length (slides one_slide))"
    by code_simp
  show ?thesis
    using h v h1 v1 suspension_keeps_intent [of two_slides]
      suspension_keeps_intent [of one_slide]
    by simp
qed

text \<open>
  C8 as stated fails over a single panel: \<open>isPlaying\<close> is true and \<open>pauseOnHover\<close> is set,
  yet after hover-enter and hover-leave no interval is armed, \<open>startAutoplay\<close> returning at
  its guard.
\<close>

theorem hover_cycle_single_slide:
  "listening one_slide \<and> pauseOnHover (options one_slide) \<and> isPlaying one_slide \<and>
   autoplayTimer (run one_slide [MouseEnter, MouseLeave]) = None"
  by code_simp

text \<open>
  C9. A carousel constructed over at least one panel starts with its index in range, and
  after any history of method calls, browser events and timer expiries the index is
  still at least 0 and below the number of panels, which has not changed; no call in
  the history raises.
\<close>

theorem index_in_range:
  assumes "children \<noteq> []"
  shows "PLSCarousel (Some children) opts = Returned (built children opts) \<and>
         (\<forall>ss. 0 \<le> currentSlide (run (built children opts) ss) \<and>
               currentSlide (run (built children opts) ss) < int (length children) \<and>
               length (slides (run (built children opts) ss)) = length children \<and>
               \<not> list_ex threw (trace (built children opts) ss))"
proof -
  have c: "consistent (built children opts)"
    using assms by (rule built_consistent)
  have "0 \<le> currentSlide (run (built children opts) ss) \<and>
        currentSlide (run (built children opts) ss) < int (length children) \<and>
        length (slides (run (built children opts) ss)) = length children \<and>
        \<not> list_ex threw (trace (built children opts) ss)" for ss
    using run_consistent [OF c, of ss]
      consistentD(5,6) [of "run (built children opts) ss"]
    by simp
  then show ?thesis
    by (simp add: PLSCarousel_eq)
qed

theorem index_in_range_witness:
  "[blank, blank, blank] \<noteq> [] \<and>
   PLSCarousel (Some [blank, blank, blank]) default_options = Returned three_slides \<and>
   currentSlide (run three_slides [Call_prev, Timeout, Call_goTo 7 True, Timeout, Call_goTo (- 4) False]) = 2 \<and>
   (\<forall>ss. 0 \<le> currentSlide (run three_slides ss) \<and> currentSlide (run three_slides ss) < 3 \<and>
         length (slides (run three_slides ss)) = 3 \<and> \<not> list_ex threw (trace three_slides ss))"
proof -
  have n: "[blank, blank, blank] \<noteq> []"
    by simp
  have v: "currentSlide (run three_slides [Call_prev, Timeout, Call_goTo 7 True, Timeout, Call_goTo (- 4) False]) = 2"
    by code_simp
  show ?thesis
    using n v index_in_range [OF n, of default_options] by (simp add: three_slides_def)
qed

text \<open>
  C10, as amended. With \<open>loop\<close> disabled and no transition in flight, \<open>next()\<close> at the last
  index (and \<open>prev()\<close> at index 0) is not dropped: the guard of \<open>goToSlide\<close> compares the
  unresolved target, so the call sets \<open>isTransitioning\<close>, dispatches \<open>slideChange\<close> with \<open>from\<close>
  equal to \<open>to\<close>, schedules the completion callback with the delay 500, and the callback
  dispatches \<open>slideChanged\<close>; \<open>currentSlide\<close> keeps its value throughout.
\<close>

theorem clamped_boundary_self_transition:
  assumes "consistent c" and "\<not> isTransitioning c" and "\<not> loop (options c)"
  shows "(currentSlide c = int (length (slides c)) - 1 \<longrightarrow>
           (\<exists>c1 cb c2. nextSlide c = Returned c1 \<and> isTransitioning c1 \<and>
              currentSlide c1 = int (length (slides c)) - 1 \<and>
              events c1 = events c @
                [SlideChange (int (length (slides c)) - 1) (int (length (slides c)) - 1)] \<and>
              timeouts c1 = [(500, cb)] \<and>
              timeoutFires c1 = Returned c2 \<and> \<not> isTransitioning c2 \<and>
              currentSlide c2 = int (length (slides c)) - 1 \<and>
              events c2 = events c1 @ [SlideChanged (int (length (slides c)) - 1)])) \<and>
         (currentSlide c = 0 \<longrightarrow>
           (\<exists>c1 cb c2. prevSlide c = Returned c1 \<and> isTransitioning c1 \<and>
              currentSlide c1 = 0 \<and>
              events c1 = events c @ [SlideChange 0 0] \<and>
              timeouts c1 = [(500, cb)] \<and>
              timeoutFires c1 = Returned c2 \<and> \<not> isTransitioning c2 \<and>
              currentSlide c2 = 0 \<and>
              events c2 = events c1 @ [SlideChanged 0]))"
proof (intro conjI impI)
  assume last: "currentSlide c = int (length (slides c)) - 1"
  have ne: "currentSlide c + 1 \<noteq> currentSlide c"
    by simp
  have r: "resolved c (currentSlide c + 1) = int (length (slides c)) - 1"
    using last assms(3) by (simp add: resolved_def)
  from transition_cycle [OF assms(1,2) ne]
  show "\<exists>c1 cb c2. nextSlide c = Returned c1 \<and> isTransitioning c1 \<and>
              currentSlide c1 = int (length (slides c)) - 1 \<and>
              events c1 = events c @
                [SlideChange (int (length (slides c)) - 1) (int (length (slides c)) - 1)] \<and>
              timeouts c1 = [(500, cb)] \<and>
              timeoutFires c1 = Returned c2 \<and> \<not> isTransitioning c2 \<and>
              currentSlide c2 = int (length (slides c)) - 1 \<and>
              events c2 = events c1 @ [SlideChanged (int (length (slides c)) - 1)]"
    unfolding nextSlide_def Let_def r using last by auto
next
  assume first: "currentSlide c = 0"
  have ne: "currentSlide c - 1 \<noteq> currentSlide c"
    by simp
  have r: "resolved c (currentSlide c - 1) = 0"
    using first assms(3) by (simp add: resolved_def)
  from transition_cycle [OF assms(1,2) ne]
  show "\<exists>c1 cb c2. prevSlide c = Returned c1 \<and> isTransitioning c1 \<and>
              currentSlide c1 = 0 \<and>
              events c1 = events c @ [SlideChange 0 0] \<and>
              timeouts c1 = [(500, cb)] \<and>
              timeoutFires c1 = Returned c2 \<and> \<not> isTransitioning c2 \<and>
              currentSlide c2 = 0 \<and>
              events c2 = events c1 @ [SlideChanged 0]"
    unfolding prevSlide_def Let_def r using first by auto
qed

theorem clamped_boundary_self_transition_witness:
  "consistent at_last_clamped \<and> \<not> isTransitioning at_last_clamped \<and>
   \<not> loop (options at_last_clamped) \<and>
   currentSlide at_last_clamped = int (length (slides at_last_clamped)) - 1 \<and>
   consistent two_slides_clamped \<and> \<not> isTransitioning two_slides_clamped \<and>
   \<not> loop (options two_slides_clamped) \<and> currentSlide two_slides_clamped = 0 \<and>
   (\<exists>c1 cb c2. nextSlide at_last_clamped = Returned c1 \<and> isTransitioning c1 \<and>
      currentSlide c1 = 1 \<and>
      events c1 = events at_last_clamped @ [SlideChange 1 1] \<and>
      timeouts c1 = [(500, cb)] \<and>
      timeoutFires c1 = Returned c2 \<and> \<not> isTransitioning c2 \<and> currentSlide c2 = 1 \<and>
      events c2 = events c1 @ [SlideChanged 1]) \<and>
   (\<exists>c1 cb c2. prevSlide two_slides_clamped = Returned c1 \<and> isTransitioning c1 \<and>
      currentSlide c1 = 0 \<and>
      events c1 = events two_slides_clamped @ [SlideChange 0 0] \<and>
      timeouts c1 = [(500, cb)] \<and>
      timeoutFires c1 = Returned c2 \<and> \<not> isTransitioning c2 \<and> currentSlide c2 = 0 \<and>
      events c2 = events c1 @ [SlideChanged 0])"
proof -
  have a: "consistent at_last_clamped" "\<not> isTransitioning at_last_clamped"
    "\<not> loop (options at_last_clamped)"
    by code_simp+
  have a': "currentSlide at_last_clamped = int (length (slides at_last_clamped)) - 1"
    "int (length (slides at_last_clamped)) - 1 = 1"
    by code_simp+
  have b: "consistent two_slides_clamped" "\<not> isTransitioning two_slides_clamped"
    "\<not> loop (options two_slides_clamped)"
    by code_simp+
  have b': "currentSlide two_slides_clamped = 0"
    by code_simp
  show ?thesis
    using a a' b b' clamped_boundary_self_transition [OF a]
      clamped_boundary_self_transition [OF b]
    by simp
qed

text \<open>
  C10 as stated fails while a transition is in flight: of two panels with \<open>loop\<close> disabled,
  standing at the last index with the self-transition of a first \<open>next()\<close> still pending, a
  further \<open>next()\<close> is dropped by the \<open>isTransitioning\<close> half of the guard; it returns the
  state as it was, dispatching nothing and scheduling nothing.
\<close>

theorem next_dropped_while_transitioning:
  "consistent (run at_last_clamped [Call_next]) \<and>
   \<not> loop (options (run at_last_clamped [Call_next])) \<and>
   length (slides (run at_last_clamped [Call_next])) = 2 \<and>
   currentSlide (run at_last_clamped [Call_next]) =
     int (length (slides (run at_last_clamped [Call_next]))) - 1 \<and>
   isTransitioning (run at_last_clamped [Call_next]) \<and>
   nextSlide (run at_last_clamped [Call_next]) = Returned (run at_last_clamped [Call_next]) \<and>
   events (state_of (nextSlide (run at_last_clamped [Call_next]))) =
     events (run at_last_clamped [Call_next]) \<and>
   timeouts (state_of (nextSlide (run at_last_clamped [Call_next]))) =
     timeouts (run at_last_clamped [Call_next])"
  by code_simp

end
